theory Spec2Isabelle
  imports Main "HOL-Library.Log_Nat"
begin

section \<open>JavaScript numbers\<close>

text \<open>
  Every JavaScript number is an IEEE-754 binary64 value. The scoring code divides two array
  lengths, multiplies by decimal literals and adds the products, so the rounding of each
  operation is part of what the program computes. A finite double is modelled by the rational
  it denotes; \<open>rd\<close> rounds a rational to the nearest value with a 53-bit significand, ties
  to the even significand. The exponent range is not bounded: every magnitude that occurs in
  this program is 0 or lies between \<open>2 powi (- 32)\<close> and \<open>2 powi 7\<close>, far from overflow
  and from the subnormal range.
\<close>

definition ilog2 :: "rat \<Rightarrow> int" where
  \<comment> \<open>the binary exponent of a positive rational: \<open>2 powi ilog2 x \<le> x < 2 powi (ilog2 x + 1)\<close>\<close>
  "ilog2 x = (if 1 \<le> x then bitlen \<lfloor>x\<rfloor> - 1 else - bitlen (\<lceil>1 / x\<rceil> - 1))"

definition rne :: "rat \<Rightarrow> int" where
  \<comment> \<open>nearest integer, ties to even\<close>
  "rne q = (let f = \<lfloor>q\<rfloor>; r = q - of_int f in
     if r < 1 / 2 then f else if 1 / 2 < r then f + 1 else if even f then f else f + 1)"

definition rd :: "rat \<Rightarrow> rat" where
  "rd x = (if x = 0 then 0 else
     (let u = 2 powi (ilog2 \<bar>x\<bar> - 52) in sgn x * of_int (rne (\<bar>x\<bar> / u)) * u))"

definition fadd :: "rat \<Rightarrow> rat \<Rightarrow> rat" where
  "fadd x y = rd (x + y)"

definition fmul :: "rat \<Rightarrow> rat \<Rightarrow> rat" where
  "fmul x y = rd (x * y)"

definition fdiv :: "rat \<Rightarrow> rat \<Rightarrow> rat" where
  \<comment> \<open>used with a non-zero divisor only\<close>
  "fdiv x y = rd (x / y)"

definition Math_round :: "rat \<Rightarrow> int" where
  \<comment> \<open>\<open>Math.round\<close>: the nearest integer, a tie going up\<close>
  "Math_round x = \<lfloor>x + 1 / 2\<rfloor>"

section \<open>Data model\<close>

datatype Severity = Critical | High | Medium | Low | Info

text \<open>
  A JavaScript value as it occurs in tool schemas, generated test inputs and call arguments.
  Numbers are integers here; an object is the list of its entries in property order.
\<close>

datatype jsval =
    JUndefined
  | JNull
  | JBool bool
  | JNum int
  | JStr string
  | JArr "jsval list"
  | JObj "(string \<times> jsval) list"

text \<open>
  Modelled from the spec: the call record is declared in \<open>archestra/types.ts\<close>, which is not
  among the sources; section 3 of the specification gives it as
  \<open>{serverName, toolName, timestamp, arguments, error?}\<close>.
\<close>

record CallRecord =
  serverName :: "string option"
  toolName :: string
  timestamp :: string
  arguments :: "jsval option"
  error :: "jsval option"

record Alert =
  type :: string
  severity :: string
  description :: string
  timestamp :: string

text \<open>A generated test case, and the response of the chat-completion client.\<close>

record TestCase =
  tool :: string
  testType :: string
  input :: "(string \<times> jsval) list"
  expectedBehavior :: string

record Message =
  content :: "string option"



text \<open>A finding.\<close>

record Vulnerability =
  severity :: Severity
  category :: string
  tool :: string
  description :: string
  recommendation :: string

text \<open>
  Modelled from the spec: the declaration of \<open>McpTool\<close> (\<open>archestra/types.ts\<close>) is not among
  the sources. Section 3 of the specification gives a tool as
  \<open>{id, name, serverName, description, inputSchema}\<close> with
  \<open>inputSchema = {properties: map(name \<rightarrow> {type, enum?, minimum?, ...}), required: [name...]}\<close>.
  The code reads \<open>inputSchema\<close>, \<open>properties\<close>, \<open>required\<close>, \<open>type\<close>, \<open>enum\<close>, \<open>minimum\<close> and
  \<open>serverName\<close> as possibly absent, so each of them is optional here. \<open>ptype = None\<close> stands
  for a property definition with no \<open>type\<close> string.
\<close>

record PropertyDef =
  ptype :: "string option"
  penum :: "jsval list option"
  minimum :: "int option"

record Schema =
  properties :: "(string \<times> PropertyDef) list option"
  required :: "string list option"

record McpTool =
  id' :: string
  name :: string
  serverName :: "string option"
  description :: string
  inputSchema :: "Schema option"

text \<open>
  Modelled from the spec: the policy records are declared in \<open>archestra/types.ts\<close> as well.
  The scorer reads nothing but \<open>toolId\<close>.
\<close>

record ToolInvocationPolicy =
  toolId :: string

record TrustedDataPolicy =
  toolId :: string

record ScoringContext =
  tools :: "McpTool list"
  vulnerabilities :: "Vulnerability list"
  toolInvocationPolicies :: "ToolInvocationPolicy list"
  trustedDataPolicies :: "TrustedDataPolicy list"

record Breakdown =
  toolDescriptionSafety :: int
  inputValidation :: int
  permissionScope :: int
  dataHandling :: int
  errorHandling :: int
  policyCompliance :: int

record TrustScoreResult =
  serverName :: string
  overallScore :: int
  breakdown :: Breakdown
  grade :: string
  recommendations :: "string list"

section \<open>The trust scorer (\<open>analysis/scoring.ts\<close>)\<close>

text \<open>
  The dimension scores are whole numbers of small magnitude, which a double holds exactly, so
  the subtractions, \<open>Math.min\<close> and \<open>Math.max\<close> are integer arithmetic. Divisions and the
  weighted sum go through \<open>rd\<close>.
\<close>

definition descDeduction :: "Vulnerability \<Rightarrow> int" where
  "descDeduction v = (case severity v of Critical \<Rightarrow> 40 | High \<Rightarrow> 25 | Medium \<Rightarrow> 15 | _ \<Rightarrow> 5)"

definition scoreToolDescriptionSafety :: "ScoringContext \<Rightarrow> int" where
  "scoreToolDescriptionSafety ctx =
     (let descVulns = filter (\<lambda>v. category v = ''Prompt Injection'' \<or>
                                   category v = ''Prompt Injection (LLM-detected)'')
                        (vulnerabilities ctx);
          score = foldl (\<lambda>score v. score - descDeduction v) 100 descVulns
      in max 0 score)"

definition hasSchema :: "McpTool \<Rightarrow> bool" where
  \<comment> \<open>\<open>t.inputSchema?.properties && Object.keys(t.inputSchema.properties).length > 0\<close>\<close>
  "hasSchema t = (case inputSchema t of None \<Rightarrow> False
     | Some s \<Rightarrow> (case properties s of None \<Rightarrow> False | Some props \<Rightarrow> length props > 0))"

definition scoreInputValidation :: "ScoringContext \<Rightarrow> int" where
  "scoreInputValidation ctx =
     (let validationVulns = filter (\<lambda>v. category v = ''Missing Input Validation'')
                              (vulnerabilities ctx);
          deduction = int (length validationVulns) * 10;
          score = 100 - min deduction 60;
          toolsWithSchemas = filter hasSchema (tools ctx);
          score = (if length (tools ctx) > 0
                   then (let ratio = fdiv (of_nat (length toolsWithSchemas))
                                          (of_nat (length (tools ctx)))
                         in if ratio = 1 then min (score + 10) 100 else score)
                   else score)
      in max 0 score)"

definition permDeduction :: "Vulnerability \<Rightarrow> int" where
  "permDeduction v = (case severity v of Critical \<Rightarrow> 35 | High \<Rightarrow> 20 | _ \<Rightarrow> 10)"

definition scorePermissionScope :: "ScoringContext \<Rightarrow> int" where
  "scorePermissionScope ctx =
     (let permVulns = filter (\<lambda>v. category v = ''Excessive Permissions'' \<or>
                                   category v = ''Command Injection'')
                        (vulnerabilities ctx);
          score = foldl (\<lambda>score v. score - permDeduction v) 100 permVulns
      in max 0 score)"

definition dataDeduction :: "Vulnerability \<Rightarrow> int" where
  "dataDeduction v = (case severity v of Critical \<Rightarrow> 35 | High \<Rightarrow> 20 | Medium \<Rightarrow> 12 | _ \<Rightarrow> 5)"

definition scoreDataHandling :: "ScoringContext \<Rightarrow> int" where
  "scoreDataHandling ctx =
     (let dataVulns = filter (\<lambda>v. category v = ''Data Exfiltration Risk'' \<or>
                                   category v = ''PII Exposure'')
                        (vulnerabilities ctx);
          score = foldl (\<lambda>score v. score - dataDeduction v) 100 dataVulns
      in max 0 score)"

definition scoreErrorHandling :: "ScoringContext \<Rightarrow> int" where
  "scoreErrorHandling ctx =
     (let score = 80;
          hasAnyVuln = length (vulnerabilities ctx) > 0
      in if \<not> hasAnyVuln then 100 else score)"

definition scorePolicyCompliance :: "ScoringContext \<Rightarrow> int" where
  \<comment> \<open>a \<open>Set\<close> of strings is the list of its distinct members; \<open>size\<close> is its length\<close>
  "scorePolicyCompliance ctx =
     (if length (tools ctx) = 0 then 100
      else
        (let toolIds = remdups (map id' (tools ctx));
             coveredByInvocation = remdups (map ToolInvocationPolicy.toolId
               (filter (\<lambda>p. ToolInvocationPolicy.toolId p \<in> set toolIds)
                  (toolInvocationPolicies ctx)));
             coveredByData = remdups (map TrustedDataPolicy.toolId
               (filter (\<lambda>p. TrustedDataPolicy.toolId p \<in> set toolIds)
                  (trustedDataPolicies ctx)));
             coveredTools = remdups (coveredByInvocation @ coveredByData);
             ratio = fdiv (of_nat (length coveredTools)) (of_nat (length (tools ctx)))
         in Math_round (fmul ratio 100)))"

definition computeGrade :: "int \<Rightarrow> string" where
  "computeGrade score =
     (if score \<ge> 95 then ''A+''
      else if score \<ge> 85 then ''A''
      else if score \<ge> 70 then ''B''
      else if score \<ge> 55 then ''C''
      else if score \<ge> 40 then ''D''
      else ''F'')"

definition rec_description :: string where
  "rec_description = ''CRITICAL: Review all tool descriptions for hidden instructions or prompt injection patterns''"

definition rec_validation :: string where
  "rec_validation = ''Add proper input validation with type constraints, maxLength, and patterns to all tool schemas''"

definition rec_permission :: string where
  "rec_permission = ''Apply least-privilege principle: restrict tool access to only necessary resources''"

definition rec_data :: string where
  "rec_data = ''Apply trusted data policies (sanitize_with_dual_llm) to tools that handle sensitive data''"

definition rec_policy :: string where
  "rec_policy = ''Configure Archestra security policies for all tools. Use generate_policy to auto-create recommended policies.''"

definition rec_naming :: string where
  "rec_naming = ''Resolve tool naming conflicts to prevent tool shadowing attacks''"

definition rec_ok :: string where
  "rec_ok = ''Server is well-configured. Continue monitoring for changes.''"

definition generateRecommendations :: "ScoringContext \<Rightarrow> Breakdown \<Rightarrow> string list" where
  "generateRecommendations ctx bd =
     (let recs = [];
          recs = (if toolDescriptionSafety bd < 70 then recs @ [rec_description] else recs);
          recs = (if inputValidation bd < 70 then recs @ [rec_validation] else recs);
          recs = (if permissionScope bd < 70 then recs @ [rec_permission] else recs);
          recs = (if dataHandling bd < 70 then recs @ [rec_data] else recs);
          recs = (if policyCompliance bd < 50 then recs @ [rec_policy] else recs);
          recs = (if list_ex (\<lambda>v. category v = ''Tool Poisoning'') (vulnerabilities ctx)
                  then recs @ [rec_naming] else recs);
          recs = (if length recs = 0 then recs @ [rec_ok] else recs)
      in recs)"

definition weightedAverage :: "Breakdown \<Rightarrow> rat" where
  \<comment> \<open>the literals \<open>0.25\<close>, \<open>0.2\<close>, \<open>0.15\<close>, \<open>0.1\<close> denote the doubles nearest to them;
      \<open>+\<close> associates to the left\<close>
  "weightedAverage bd =
     fadd (fadd (fadd (fadd (fadd
       (fmul (of_int (toolDescriptionSafety bd)) (rd (1 / 4)))
       (fmul (of_int (inputValidation bd)) (rd (1 / 5))))
       (fmul (of_int (permissionScope bd)) (rd (1 / 5))))
       (fmul (of_int (dataHandling bd)) (rd (3 / 20))))
       (fmul (of_int (errorHandling bd)) (rd (1 / 10))))
       (fmul (of_int (policyCompliance bd)) (rd (1 / 10)))"

definition calculateTrustScore :: "ScoringContext \<Rightarrow> TrustScoreResult" where
  "calculateTrustScore ctx =
     (let bd = \<lparr> toolDescriptionSafety = scoreToolDescriptionSafety ctx,
                 inputValidation = scoreInputValidation ctx,
                 permissionScope = scorePermissionScope ctx,
                 dataHandling = scoreDataHandling ctx,
                 errorHandling = scoreErrorHandling ctx,
                 policyCompliance = scorePolicyCompliance ctx \<rparr>;
          overall = Math_round (weightedAverage bd);
          srv = (case tools ctx of [] \<Rightarrow> ''unknown''
                 | t # _ \<Rightarrow> (case McpTool.serverName t of None \<Rightarrow> ''unknown'' | Some s \<Rightarrow> s))
      in \<lparr> serverName = srv,
           overallScore = overall,
           breakdown = bd,
           grade = computeGrade overall,
           recommendations = generateRecommendations ctx bd \<rparr>)"

section \<open>The test-case generator (\<open>analysis/test-generator.ts\<close>)\<close>



fun join :: "string \<Rightarrow> string list \<Rightarrow> string" where
  \<comment> \<open>\<open>Array.prototype.join\<close> on an array of strings\<close>
  "join sep [] = []"
| "join sep [x] = x"
| "join sep (x # y # ys) = x @ sep @ join sep (y # ys)"








definition sqlPayload :: string where
  "sqlPayload = CHR 0x27 # ''; DROP TABLE users; --''"









section \<open>The suspicious-input scan of the monitor (\<open>tools/monitor.ts\<close>)\<close>

text \<open>
  \<open>JSON.stringify\<close> without indentation. A string is a sequence of code units below 256;
  a number is an integer, printed in decimal as JavaScript does for magnitudes below
  \<open>10\<^sup>2\<^sup>1\<close>. A member whose value is \<open>undefined\<close> is left out of an object and printed as
  \<open>null\<close> in an array.
\<close>

definition hexDigit :: "nat \<Rightarrow> char" where
  "hexDigit n = ''0123456789abcdef'' ! (n mod 16)"

definition escapeChar :: "char \<Rightarrow> string" where
  "escapeChar c =
     (let n = (of_char c :: nat) in
      if n = 8 then [CHR 0x5C, CHR ''b'']
      else if n = 9 then [CHR 0x5C, CHR ''t'']
      else if n = 10 then [CHR 0x5C, CHR ''n'']
      else if n = 12 then [CHR 0x5C, CHR ''f'']
      else if n = 13 then [CHR 0x5C, CHR ''r'']
      else if n = 34 then [CHR 0x5C, CHR 0x22]
      else if n = 92 then [CHR 0x5C, CHR 0x5C]
      else if n < 32 then [CHR 0x5C, CHR ''u'', CHR ''0'', CHR ''0'', hexDigit (n div 16), hexDigit n]
      else [c])"

definition quoteJSONString :: "string \<Rightarrow> string" where
  "quoteJSONString s = [CHR 0x22] @ concat (map escapeChar s) @ [CHR 0x22]"

fun digits :: "nat \<Rightarrow> string" where
  "digits n = (if n < 10 then [hexDigit n] else digits (n div 10) @ [hexDigit (n mod 10)])"

definition numberToString :: "int \<Rightarrow> string" where
  "numberToString i = (if i < 0 then CHR ''-'' # digits (nat (- i)) else digits (nat i))"

fun JSON_stringify :: "jsval \<Rightarrow> string option"
  and stringifyElements :: "jsval list \<Rightarrow> string list"
  and stringifyMembers :: "(string \<times> jsval) list \<Rightarrow> string list" where
  "JSON_stringify JUndefined = None"
| "JSON_stringify JNull = Some ''null''"
| "JSON_stringify (JBool b) = Some (if b then ''true'' else ''false'')"
| "JSON_stringify (JNum i) = Some (numberToString i)"
| "JSON_stringify (JStr s) = Some (quoteJSONString s)"
| "JSON_stringify (JArr xs) = Some (''['' @ join '','' (stringifyElements xs) @ '']'')"
| "JSON_stringify (JObj kvs) = Some (''{'' @ join '','' (stringifyMembers kvs) @ ''}'')"
| "stringifyElements [] = []"
| "stringifyElements (x # xs) =
     (case JSON_stringify x of None \<Rightarrow> ''null'' | Some s \<Rightarrow> s) # stringifyElements xs"
| "stringifyMembers [] = []"
| "stringifyMembers ((k, v) # kvs) =
     (case JSON_stringify v of None \<Rightarrow> stringifyMembers kvs
      | Some s \<Rightarrow> (quoteJSONString k @ '':'' @ s) # stringifyMembers kvs)"

definition truthy :: "jsval \<Rightarrow> bool" where
  "truthy v = (case v of JUndefined \<Rightarrow> False | JNull \<Rightarrow> False | JBool b \<Rightarrow> b
     | JNum i \<Rightarrow> i \<noteq> 0 | JStr s \<Rightarrow> s \<noteq> [] | _ \<Rightarrow> True)"

text \<open>
  The five regular expressions of the monitor. None has the \<open>g\<close> or \<open>y\<close> flag, so \<open>test\<close>
  keeps no state between calls. With the \<open>i\<close> flag an ASCII letter of the pattern matches
  its two cases and nothing else; \<open>\\s\<close> matches the white space code units. In
  \<open>\\s+previous\<close> and \<open>\\s*\\(\<close> the character after the white space is not white space, so
  the greedy match is the only one.
\<close>

definition isSpace :: "char \<Rightarrow> bool" where
  "isSpace c \<longleftrightarrow> (of_char c :: nat) \<in> {9, 10, 11, 12, 13, 32, 160}"

definition sameLetter :: "char \<Rightarrow> char \<Rightarrow> bool" where
  "sameLetter p c \<longleftrightarrow> c = p \<or>
     (let n = (of_char c :: nat) in 65 \<le> n \<and> n \<le> 90 \<and> n + 32 = of_char p)"

fun matchLiteral :: "(char \<Rightarrow> char \<Rightarrow> bool) \<Rightarrow> string \<Rightarrow> string \<Rightarrow> string option" where
  "matchLiteral eq [] s = Some s"
| "matchLiteral eq (p # ps) [] = None"
| "matchLiteral eq (p # ps) (c # cs) = (if eq p c then matchLiteral eq ps cs else None)"

fun anywhere :: "(string \<Rightarrow> bool) \<Rightarrow> string \<Rightarrow> bool" where
  "anywhere P [] = P []"
| "anywhere P (c # cs) = (P (c # cs) \<or> anywhere P cs)"

datatype Pattern = IgnorePrevious | DropTable | PathTraversal | ScriptTag | ExecCall

definition wordsApart :: "string \<Rightarrow> string \<Rightarrow> string \<Rightarrow> bool" where
  "wordsApart w1 w2 s =
     (case matchLiteral sameLetter w1 s of None \<Rightarrow> False
      | Some r \<Rightarrow> (case r of [] \<Rightarrow> False
          | c # cs \<Rightarrow> isSpace c \<and> matchLiteral sameLetter w2 (dropWhile isSpace cs) \<noteq> None))"

fun test :: "Pattern \<Rightarrow> string \<Rightarrow> bool" where
  "test IgnorePrevious s = anywhere (wordsApart ''ignore'' ''previous'') s"
| "test DropTable s = anywhere (wordsApart ''drop'' ''table'') s"
| "test PathTraversal s = anywhere (\<lambda>s. matchLiteral (=) ''../../'' s \<noteq> None) s"
| "test ScriptTag s = anywhere (\<lambda>s. matchLiteral sameLetter ''<script>'' s \<noteq> None) s"
| "test ExecCall s =
     anywhere (\<lambda>s. case matchLiteral sameLetter ''exec'' s of None \<Rightarrow> False
                    | Some r \<Rightarrow> matchLiteral (=) ''('' (dropWhile isSpace r) \<noteq> None) s"

definition suspiciousPatterns :: "Pattern list" where
  "suspiciousPatterns = [IgnorePrevious, DropTable, PathTraversal, ScriptTag, ExecCall]"

fun source :: "Pattern \<Rightarrow> string" where
  "source IgnorePrevious = ''ignore'' @ [CHR 0x5C] @ ''s+previous''"
| "source DropTable = ''drop'' @ [CHR 0x5C] @ ''s+table''"
| "source PathTraversal =
     [CHR 0x5C] @ ''.'' @ [CHR 0x5C] @ ''.'' @ [CHR 0x5C] @ ''/'' @
     [CHR 0x5C] @ ''.'' @ [CHR 0x5C] @ ''.'' @ [CHR 0x5C] @ ''/''"
| "source ScriptTag = ''<script>''"
| "source ExecCall = ''exec'' @ [CHR 0x5C] @ ''s*'' @ [CHR 0x5C] @ ''(''"

definition argsStr :: "CallRecord \<Rightarrow> string" where
  \<comment> \<open>\<open>JSON.stringify(call.arguments || {})\<close>\<close>
  "argsStr call =
     (let v = (case arguments call of None \<Rightarrow> JObj []
               | Some a \<Rightarrow> if truthy a then a else JObj [])
      in case JSON_stringify v of Some s \<Rightarrow> s | None \<Rightarrow> ''undefined'')"

definition suspiciousAlert :: "Pattern \<Rightarrow> CallRecord \<Rightarrow> Alert" where
  "suspiciousAlert p call =
     \<lparr> type = ''suspicious_input'', severity = ''critical'',
       description = ''Suspicious pattern '' @ [CHR 0x22] @ source p @ [CHR 0x22] @
                     '' detected in call to '' @ toolName call,
       timestamp = CallRecord.timestamp call \<rparr>"

fun scanPatterns :: "Pattern list \<Rightarrow> string \<Rightarrow> CallRecord \<Rightarrow> Alert list \<Rightarrow> Alert list" where
  \<comment> \<open>the inner loop; \<open>break\<close> after the first pattern that matches\<close>
  "scanPatterns [] s call alerts = alerts"
| "scanPatterns (p # ps) s call alerts =
     (if test p s then alerts @ [suspiciousAlert p call] else scanPatterns ps s call alerts)"

fun scanCalls :: "CallRecord list \<Rightarrow> Alert list \<Rightarrow> Alert list" where
  \<comment> \<open>the outer loop over the calls of one server\<close>
  "scanCalls [] alerts = alerts"
| "scanCalls (call # calls) alerts =
     scanCalls calls (scanPatterns suspiciousPatterns (argsStr call) call alerts)"

definition scanSuspiciousInputs :: "bool \<Rightarrow> CallRecord list \<Rightarrow> Alert list \<Rightarrow> Alert list" where
  \<comment> \<open>the block \<open>if (thresholds.suspiciousPatterns) { ... }\<close> of \<open>monitor\<close>; \<open>alerts\<close> holds what
      the error-rate and volume checks of the same server have pushed before\<close>
  "scanSuspiciousInputs enabled calls alerts = (if enabled then scanCalls calls alerts else alerts)"

section \<open>Deep analysis (\<open>analysis/prompt-injection.ts\<close>)\<close>




fun toString :: "jsval \<Rightarrow> string" and elementsToString :: "jsval list \<Rightarrow> string list" where
  \<comment> \<open>the conversion a template literal applies\<close>
  "toString JUndefined = ''undefined''"
| "toString JNull = ''null''"
| "toString (JBool b) = (if b then ''true'' else ''false'')"
| "toString (JNum i) = numberToString i"
| "toString (JStr s) = s"
| "toString (JArr xs) = join '','' (elementsToString xs)"
| "toString (JObj kvs) = ''[object Object]''"
| "elementsToString [] = []"
| "elementsToString (x # xs) =
     (if x = JNull \<or> x = JUndefined then [] else toString x) # elementsToString xs"







section \<open>The trifecta detector\<close>

text \<open>
  Modelled from the spec: \<open>detectLethalTrifecta\<close> lives in \<open>analysis/vulnerability-patterns.ts\<close>,
  which is not among the sources; only its call in \<open>scanServer\<close> is. Section 4.2 of the
  specification: each tool is classified into zero or more of three capability classes; if
  the tool set collectively covers all three, the server is flagged with one critical finding
  of category Lethal Trifecta naming the implicated tools; the check must not fire if any one
  class is absent. The specification does not fix how a description is inspected, so the
  classifier \<open>cls\<close> is a parameter, and it does not fix the wording of the finding.
\<close>

datatype Capability = PrivateData | UntrustedContent | ExternalComm

definition covers :: "(McpTool \<Rightarrow> Capability \<Rightarrow> bool) \<Rightarrow> McpTool list \<Rightarrow> Capability \<Rightarrow> bool" where
  "covers cls ts c = list_ex (\<lambda>t. cls t c) ts"

definition detectLethalTrifecta :: "(McpTool \<Rightarrow> Capability \<Rightarrow> bool) \<Rightarrow> McpTool list \<Rightarrow> Vulnerability list" where
  "detectLethalTrifecta cls ts =
     (if covers cls ts PrivateData \<and> covers cls ts UntrustedContent \<and> covers cls ts ExternalComm
      then [\<lparr> severity = Critical, category = ''Lethal Trifecta'',
              tool = join '', '' (map name (filter (\<lambda>t. cls t PrivateData \<or> cls t UntrustedContent \<or>
                                                        cls t ExternalComm) ts)),
              description = ''Tool set combines private-data access, untrusted-content ingestion and external communication'',
              recommendation = ''Separate the three capabilities or restrict them by policy'' \<rparr>]
      else [])"

section \<open>Example inputs\<close>

definition ctx_empty :: ScoringContext where
  "ctx_empty = \<lparr> tools = [], vulnerabilities = [], toolInvocationPolicies = [],
                 trustedDataPolicies = [] \<rparr>"

definition vuln_injection :: Vulnerability where
  "vuln_injection = \<lparr> severity = Critical, category = ''Prompt Injection'', tool = ''read_file'',
     description = ''Hidden instruction in description'', recommendation = ''Block the tool'' \<rparr>"

definition tool_a :: McpTool where
  "tool_a = \<lparr> id' = ''a'', name = ''read_file'', serverName = Some ''demo'',
     description = ''Read a file'',
     inputSchema = Some \<lparr> properties = Some [(''path'', \<lparr> ptype = Some ''string'', penum = None, minimum = None \<rparr>)],
                          required = Some [''path''] \<rparr> \<rparr>"

definition tool_b :: McpTool where
  "tool_b = \<lparr> id' = ''b'', name = ''send_email'', serverName = Some ''demo'',
     description = ''Send an email'',
     inputSchema = Some \<lparr> properties = Some [(''to'', \<lparr> ptype = Some ''string'', penum = None, minimum = None \<rparr>)],
                          required = None \<rparr> \<rparr>"

definition ctx_half_covered :: ScoringContext where
  "ctx_half_covered = \<lparr> tools = [tool_a, tool_b], vulnerabilities = [],
     toolInvocationPolicies = [\<lparr> ToolInvocationPolicy.toolId = ''a'' \<rparr>],
     trustedDataPolicies = [] \<rparr>"



definition call_drop_table :: CallRecord where
  \<comment> \<open>a call whose arguments contain the SQL payload of the specification\<close>
  "call_drop_table = \<lparr> CallRecord.serverName = Some ''demo'', toolName = ''search'',
     timestamp = ''2026-01-01T00:00:00.000Z'',
     arguments = Some (JObj [(''query'', JStr sqlPayload)]), error = None \<rparr>"

definition call_two_patterns :: CallRecord where
  \<comment> \<open>arguments that match the first and the second pattern\<close>
  "call_two_patterns = \<lparr> CallRecord.serverName = Some ''demo'', toolName = ''run_query'',
     timestamp = ''2026-01-01T00:00:01.000Z'',
     arguments = Some (JObj [(''q'', JStr ''drop table t; IGNORE  previous rules'')]), error = None \<rparr>"

definition call_clean :: CallRecord where
  "call_clean = \<lparr> CallRecord.serverName = Some ''demo'', toolName = ''read_file'',
     timestamp = ''2026-01-01T00:00:02.000Z'',
     arguments = Some (JObj [(''path'', JStr ''/tmp/report.txt''), (''lines'', JNum 20)]),
     error = None \<rparr>"



definition tool_fetch :: McpTool where
  "tool_fetch = \<lparr> id' = ''f'', name = ''fetch_webpage'', serverName = Some ''demo'',
     description = ''Fetch the HTML content of any URL'',
     inputSchema = Some \<lparr> properties = Some [(''url'', \<lparr> ptype = Some ''string'', penum = None, minimum = None \<rparr>)],
                          required = None \<rparr> \<rparr>"

definition cls_by_name :: "McpTool \<Rightarrow> Capability \<Rightarrow> bool" where
  \<comment> \<open>a classifier for the three example tools\<close>
  "cls_by_name t c \<longleftrightarrow>
     (name t = ''read_file'' \<and> c = PrivateData) \<or>
     (name t = ''fetch_webpage'' \<and> c = UntrustedContent) \<or>
     (name t = ''send_email'' \<and> c = ExternalComm)"

section \<open>Properties of the rounding\<close>

lemma bitlen_powi_bounds:
  assumes "0 < (p::int)"
  shows "(2::rat) powi (bitlen p - 1) \<le> of_int p" and "of_int p + 1 \<le> (2::rat) powi (bitlen p)"
proof -
  from bitlen_bounds[OF assms] have lo: "2 ^ nat (bitlen p - 1) \<le> p" and hi: "p + 1 \<le> 2 ^ nat (bitlen p)"
    by auto
  have b1: "1 \<le> bitlen p" using assms by (simp add: bitlen_alt_def)
  have "(of_int (2 ^ nat (bitlen p - 1)) :: rat) \<le> of_int p" using lo by (simp only: of_int_le_iff)
  then show "(2::rat) powi (bitlen p - 1) \<le> of_int p" using b1 by (simp add: power_int_def)
  have "(of_int (p + 1) :: rat) \<le> of_int (2 ^ nat (bitlen p))" using hi by (simp only: of_int_le_iff)
  then show "of_int p + 1 \<le> (2::rat) powi (bitlen p)" using b1 by (simp add: power_int_def)
qed

lemma ilog2_bounds:
  assumes "0 < x"
  shows "2 powi (ilog2 x) \<le> x" and "x < 2 powi (ilog2 x + 1)"
proof -
  show "2 powi (ilog2 x) \<le> x"
  proof (cases "1 \<le> x")
    case True
    then have n: "0 < \<lfloor>x\<rfloor>" by simp
    have "2 powi (bitlen \<lfloor>x\<rfloor> - 1) \<le> (of_int \<lfloor>x\<rfloor> :: rat)" by (rule bitlen_powi_bounds(1)[OF n])
    also have "\<dots> \<le> x" by simp
    finally show ?thesis using True by (simp add: ilog2_def)
  next
    case False
    define M where "M = \<lceil>1 / x\<rceil> - 1"
    have "1 < 1 / x" using False assms by simp
    then have M: "0 < M" unfolding M_def by simp
    have "1 / x \<le> of_int \<lceil>1 / x\<rceil>" by simp
    also have "\<dots> = of_int M + 1" by (simp add: M_def)
    also have "\<dots> \<le> 2 powi (bitlen M)" by (rule bitlen_powi_bounds(2)[OF M])
    finally have "1 / x \<le> 2 powi (bitlen M)" .
    then have "1 \<le> 2 powi (bitlen M) * x" using assms by (simp add: pos_divide_le_eq)
    then have "1 / 2 powi (bitlen M) \<le> x" by (simp add: pos_divide_le_eq mult.commute)
    then have "2 powi (- bitlen M) \<le> x" by (simp add: power_int_minus divide_inverse)
    then show ?thesis using False by (simp add: ilog2_def M_def)
  qed
  show "x < 2 powi (ilog2 x + 1)"
  proof (cases "1 \<le> x")
    case True
    then have n: "0 < \<lfloor>x\<rfloor>" by simp
    have "x < of_int \<lfloor>x\<rfloor> + 1" by linarith
    also have "\<dots> \<le> 2 powi (bitlen \<lfloor>x\<rfloor>)" by (rule bitlen_powi_bounds(2)[OF n])
    finally show ?thesis using True by (simp add: ilog2_def)
  next
    case False
    define M where "M = \<lceil>1 / x\<rceil> - 1"
    have "1 < 1 / x" using False assms by simp
    then have M: "0 < M" unfolding M_def by simp
    have "2 powi (bitlen M - 1) \<le> (of_int M :: rat)" by (rule bitlen_powi_bounds(1)[OF M])
    also have "\<dots> < 1 / x" unfolding M_def by linarith
    finally have "2 powi (bitlen M - 1) < 1 / x" .
    then have "2 powi (bitlen M - 1) * x < 1" using assms by (simp add: pos_less_divide_eq)
    then have "x < 1 / 2 powi (bitlen M - 1)" by (simp add: pos_less_divide_eq mult.commute)
    also have "1 / 2 powi (bitlen M - 1) = (2::rat) powi (- (bitlen M - 1))"
      using power_int_minus[of "2::rat" "bitlen M - 1"] by (simp add: divide_inverse)
    finally show ?thesis using False by (simp add: ilog2_def M_def)
  qed
qed

lemma rne_of_int [simp]: "rne (of_int n) = n"
  by (simp add: rne_def)

lemma rne_floor_le: "\<lfloor>q\<rfloor> \<le> rne q"
  by (simp add: rne_def Let_def)

lemma rne_le_ceiling: "rne q \<le> \<lceil>q\<rceil>"
  unfolding rne_def Let_def by (auto simp: ceiling_def) linarith+

lemma rne_mono: "a \<le> b \<Longrightarrow> rne a \<le> rne b"
proof -
  assume ab: "a \<le> b"
  have fl: "\<lfloor>a\<rfloor> \<le> \<lfloor>b\<rfloor>" using ab by (rule floor_mono)
  show ?thesis
  proof (cases "\<lfloor>a\<rfloor> = \<lfloor>b\<rfloor>")
    case True
    with ab show ?thesis by (auto simp: rne_def Let_def)
  next
    case False
    with fl have "\<lfloor>a\<rfloor> + 1 \<le> \<lfloor>b\<rfloor>" by simp
    moreover have "rne a \<le> \<lfloor>a\<rfloor> + 1" by (simp add: rne_def Let_def)
    ultimately show ?thesis using rne_floor_le[of b] by linarith
  qed
qed


lemma rd_pos: "0 < x \<Longrightarrow> rd x = of_int (rne (x / 2 powi (ilog2 x - 52))) * 2 powi (ilog2 x - 52)"
  by (simp add: rd_def Let_def)

lemma rd_binade:
  assumes "0 < x"
  shows "2 powi (ilog2 x) \<le> rd x" and "rd x \<le> 2 powi (ilog2 x + 1)"
proof -
  define e where "e = ilog2 x"
  define u :: rat where "u = 2 powi (e - 52)"
  have u: "0 < u" by (simp add: u_def)
  have e52: "(2::rat) powi e = 2 ^ 52 * u"
    using power_int_add[of "2::rat" 52 "e - 52"] by (simp add: u_def)
  have e53: "(2::rat) powi (e + 1) = 2 ^ 53 * u"
    using power_int_add[of "2::rat" 53 "e - 52"] by (simp add: u_def add.commute)
  have lo: "of_int (2 ^ 52) \<le> x / u"
    using ilog2_bounds(1)[OF assms] u by (simp add: e52 e_def[symmetric] pos_le_divide_eq)
  have hi: "x / u \<le> of_int (2 ^ 53)"
    using ilog2_bounds(2)[OF assms] u by (simp add: e53 e_def[symmetric] pos_divide_le_eq less_imp_le)
  have "2 ^ 52 \<le> rne (x / u)" using rne_mono[OF lo] by (simp only: rne_of_int)
  then have "(of_int (2 ^ 52) :: rat) \<le> of_int (rne (x / u))" by (simp only: of_int_le_iff)
  then have "2 ^ 52 * u \<le> of_int (rne (x / u)) * u" using u by simp
  then show "2 powi (ilog2 x) \<le> rd x"
    by (simp add: rd_pos[OF assms] e_def[symmetric] u_def[symmetric] e52)
  have "rne (x / u) \<le> 2 ^ 53" using rne_mono[OF hi] by (simp only: rne_of_int)
  then have "(of_int (rne (x / u)) :: rat) \<le> of_int (2 ^ 53)" by (simp only: of_int_le_iff)
  then have "of_int (rne (x / u)) * u \<le> 2 ^ 53 * u" using u by simp
  then show "rd x \<le> 2 powi (ilog2 x + 1)"
    by (simp add: rd_pos[OF assms] e_def[symmetric] u_def[symmetric] e53)
qed

lemma rd_zero [simp]: "rd 0 = 0"
  by (simp add: rd_def)

lemma rd_nonneg: "0 \<le> x \<Longrightarrow> 0 \<le> rd x"
proof (cases "x = 0")
  case False
  assume "0 \<le> x"
  with False have x: "0 < x" by simp
  have "(0::rat) \<le> 2 powi (ilog2 x)" by simp
  with rd_binade(1)[OF x] show ?thesis by linarith
qed simp

lemma ilog2_mono:
  assumes "0 < x" and "x \<le> y"
  shows "ilog2 x \<le> ilog2 y"
proof (rule ccontr)
  assume "\<not> ilog2 x \<le> ilog2 y"
  then have "ilog2 y + 1 \<le> ilog2 x" by simp
  then have "(2::rat) powi (ilog2 y + 1) \<le> 2 powi (ilog2 x)"
    by (intro power_int_increasing) simp_all
  also have "\<dots> \<le> x" by (rule ilog2_bounds(1)[OF assms(1)])
  also have "\<dots> \<le> y" by (rule assms(2))
  also have "\<dots> < 2 powi (ilog2 y + 1)" using assms by (intro ilog2_bounds(2)) simp
  finally show False by simp
qed

lemma rd_mono:
  assumes "0 \<le> x" and "x \<le> y"
  shows "rd x \<le> rd y"
proof (cases "x = 0")
  case True
  then show ?thesis using assms rd_nonneg[of y] by simp
next
  case False
  with assms have x: "0 < x" and y: "0 < y" by simp_all
  show ?thesis
  proof (cases "ilog2 x = ilog2 y")
    case True
    define u :: rat where "u = 2 powi (ilog2 y - 52)"
    have u: "0 < u" by (simp add: u_def)
    have "x / u \<le> y / u" using assms(2) u by (simp add: divide_right_mono)
    then have "rne (x / u) \<le> rne (y / u)" by (rule rne_mono)
    then have "(of_int (rne (x / u)) :: rat) * u \<le> of_int (rne (y / u)) * u"
      using u by simp
    then show ?thesis by (simp add: rd_pos[OF x] rd_pos[OF y] True u_def[symmetric])
  next
    case False
    with ilog2_mono[OF x assms(2)] have "ilog2 x + 1 \<le> ilog2 y" by simp
    then have "(2::rat) powi (ilog2 x + 1) \<le> 2 powi (ilog2 y)"
      by (intro power_int_increasing) simp_all
    with rd_binade(2)[OF x] rd_binade(1)[OF y] show ?thesis by linarith
  qed
qed

text \<open>Evaluation at numerals: the facts \<open>rd_eval\<close> let the simplifier compute \<open>rd\<close>.\<close>

lemma floor_rat_divide_numeral: "\<lfloor>numeral a / numeral b :: rat\<rfloor> = numeral a div numeral b"
  by (metis floor_divide_of_int_eq of_int_numeral)

lemma floor_rat_one_divide_numeral: "\<lfloor>1 / numeral b :: rat\<rfloor> = 1 div numeral b"
  by (metis floor_divide_of_int_eq of_int_numeral of_int_1)

lemma ceiling_rat_divide_numeral: "\<lceil>numeral a / numeral b :: rat\<rceil> = - (- numeral a div numeral b)"
  by (metis ceiling_def floor_divide_of_int_eq minus_divide_left of_int_minus of_int_numeral)

lemma ceiling_rat_one_divide_numeral: "\<lceil>1 / numeral b :: rat\<rceil> = - (- 1 div numeral b)"
  by (metis ceiling_def floor_divide_of_int_eq minus_divide_left of_int_minus of_int_numeral of_int_1)

lemma bitlen_numeral: "bitlen (numeral n) = bitlen (numeral n div 2) + 1"
  by (subst compute_bitlen) simp

lemma bitlen_one: "bitlen 1 = 1"
  by (subst compute_bitlen) simp

lemmas rd_eval = rd_def fadd_def fmul_def fdiv_def ilog2_def rne_def Let_def Math_round_def
  floor_rat_divide_numeral floor_rat_one_divide_numeral
  ceiling_rat_divide_numeral ceiling_rat_one_divide_numeral bitlen_numeral bitlen_one


lemma rd_one: "rd 1 = 1"
  by (simp add: rd_eval)

lemma rd_hundred: "rd 100 = 100"
  by (simp add: rd_eval)

section \<open>Ranges and monotonicity of the scores\<close>

lemma foldl_sub_le:
  "(\<And>v. 0 \<le> d v) \<Longrightarrow> foldl (\<lambda>score v. score - d v) s xs \<le> (s::int)"
proof (induction xs arbitrary: s)
  case Nil
  then show ?case by simp
next
  case (Cons x xs)
  have "foldl (\<lambda>score v. score - d v) (s - d x) xs \<le> s - d x" by (rule Cons.IH) (rule Cons.prems)
  also have "\<dots> \<le> s" using Cons.prems[of x] by simp
  finally show ?case by simp
qed

lemma descDeduction_nonneg: "0 \<le> descDeduction v"
  by (simp add: descDeduction_def split: Severity.split)

lemma permDeduction_nonneg: "0 \<le> permDeduction v"
  by (simp add: permDeduction_def split: Severity.split)

lemma dataDeduction_nonneg: "0 \<le> dataDeduction v"
  by (simp add: dataDeduction_def split: Severity.split)

lemma scoreToolDescriptionSafety_range:
  "0 \<le> scoreToolDescriptionSafety ctx \<and> scoreToolDescriptionSafety ctx \<le> 100"
  using foldl_sub_le[of descDeduction, OF descDeduction_nonneg]
  by (simp add: scoreToolDescriptionSafety_def Let_def)

lemma scorePermissionScope_range:
  "0 \<le> scorePermissionScope ctx \<and> scorePermissionScope ctx \<le> 100"
  using foldl_sub_le[of permDeduction, OF permDeduction_nonneg]
  by (simp add: scorePermissionScope_def Let_def)

lemma scoreDataHandling_range:
  "0 \<le> scoreDataHandling ctx \<and> scoreDataHandling ctx \<le> 100"
  using foldl_sub_le[of dataDeduction, OF dataDeduction_nonneg]
  by (simp add: scoreDataHandling_def Let_def)

lemma scoreInputValidation_range:
  "0 \<le> scoreInputValidation ctx \<and> scoreInputValidation ctx \<le> 100"
proof -
  define s0 where "s0 = 100 - min (int (length (filter (\<lambda>v. category v = ''Missing Input Validation'')
                              (vulnerabilities ctx))) * 10) 60"
  define s1 where "s1 = (if length (tools ctx) > 0
                   then (if fdiv (of_nat (length (filter hasSchema (tools ctx))))
                                 (of_nat (length (tools ctx))) = 1
                         then min (s0 + 10) 100 else s0)
                   else s0)"
  have e: "scoreInputValidation ctx = max 0 s1"
    by (simp only: scoreInputValidation_def Let_def s0_def s1_def)
  have "s0 \<le> 100" by (simp add: s0_def)
  then have "s1 \<le> 100" by (simp add: s1_def)
  then show ?thesis by (simp add: e)
qed

lemma scoreErrorHandling_range:
  "0 \<le> scoreErrorHandling ctx \<and> scoreErrorHandling ctx \<le> 100"
  by (simp add: scoreErrorHandling_def Let_def)

lemma Math_round_mono: "x \<le> y \<Longrightarrow> Math_round x \<le> Math_round y"
  by (simp add: Math_round_def floor_mono)

lemma Math_round_of_int [simp]: "Math_round (of_int n) = n"
  by (simp add: Math_round_def) linarith

lemma covered_le_tools:
  assumes "set cs \<subseteq> set (map f ts)"
  shows "length (remdups cs) \<le> length ts"
proof -
  have "length (remdups cs) = card (set cs)" by (simp add: length_remdups_card_conv)
  also have "\<dots> \<le> card (set (map f ts))" using assms by (intro card_mono) simp_all
  also have "\<dots> \<le> length (map f ts)" by (rule card_length)
  finally show ?thesis by simp
qed

lemma scorePolicyCompliance_range:
  "0 \<le> scorePolicyCompliance ctx \<and> scorePolicyCompliance ctx \<le> 100"
proof (cases "length (tools ctx) = 0")
  case True
  then show ?thesis by (simp add: scorePolicyCompliance_def)
next
  case False
  define n where "n = length (tools ctx)"
  define cs where "cs = remdups (map ToolInvocationPolicy.toolId
               (filter (\<lambda>p. ToolInvocationPolicy.toolId p \<in> set (remdups (map id' (tools ctx))))
                  (toolInvocationPolicies ctx))) @ remdups (map TrustedDataPolicy.toolId
               (filter (\<lambda>p. TrustedDataPolicy.toolId p \<in> set (remdups (map id' (tools ctx))))
                  (trustedDataPolicies ctx)))"
  define k where "k = length (remdups cs)"
  have n: "0 < n" using False by (simp add: n_def)
  have "set cs \<subseteq> set (map id' (tools ctx))" by (auto simp: cs_def)
  then have kn: "k \<le> n" unfolding k_def n_def by (rule covered_le_tools)
  have pc: "scorePolicyCompliance ctx = Math_round (fmul (fdiv (of_nat k) (of_nat n)) 100)"
    using False by (simp add: scorePolicyCompliance_def Let_def k_def n_def cs_def)
  have q0: "(0::rat) \<le> of_nat k / of_nat n" by simp
  have q1: "(of_nat k :: rat) / of_nat n \<le> 1" using kn n by simp
  have r0: "0 \<le> fdiv (of_nat k) (of_nat n)" unfolding fdiv_def by (rule rd_nonneg[OF q0])
  have r1: "fdiv (of_nat k) (of_nat n) \<le> 1"
    unfolding fdiv_def using rd_mono[OF q0 q1] by (simp add: rd_one)
  have m0: "0 \<le> fmul (fdiv (of_nat k) (of_nat n)) 100"
    unfolding fmul_def using r0 by (intro rd_nonneg) simp
  have "fdiv (of_nat k) (of_nat n) * 100 \<le> 100" using r1 by simp
  moreover have "0 \<le> fdiv (of_nat k) (of_nat n) * 100" using r0 by simp
  ultimately have m1: "fmul (fdiv (of_nat k) (of_nat n)) 100 \<le> 100"
    unfolding fmul_def using rd_mono[of "fdiv (of_nat k) (of_nat n) * 100" 100] by (simp add: rd_hundred)
  have "Math_round 0 \<le> Math_round (fmul (fdiv (of_nat k) (of_nat n)) 100)"
    using m0 by (rule Math_round_mono)
  moreover have "Math_round (fmul (fdiv (of_nat k) (of_nat n)) 100) \<le> Math_round 100"
    using m1 by (rule Math_round_mono)
  moreover have "Math_round 0 = 0" "Math_round 100 = 100"
    using Math_round_of_int[of 0] Math_round_of_int[of 100] by simp_all
  ultimately show ?thesis by (simp add: pc)
qed


lemma fmul_nonneg: "0 \<le> x \<Longrightarrow> 0 \<le> c \<Longrightarrow> 0 \<le> fmul x c"
  unfolding fmul_def by (intro rd_nonneg) simp

lemma fmul_mono: "0 \<le> x \<Longrightarrow> x \<le> y \<Longrightarrow> 0 \<le> c \<Longrightarrow> fmul x c \<le> fmul y c"
  unfolding fmul_def by (intro rd_mono) (simp_all add: mult_right_mono)

lemma fadd_nonneg: "0 \<le> x \<Longrightarrow> 0 \<le> y \<Longrightarrow> 0 \<le> fadd x y"
  unfolding fadd_def by (intro rd_nonneg) simp

lemma fadd_mono:
  "0 \<le> x \<Longrightarrow> 0 \<le> y \<Longrightarrow> x \<le> x' \<Longrightarrow> y \<le> y' \<Longrightarrow> fadd x y \<le> fadd x' y'"
  unfolding fadd_def by (intro rd_mono) simp_all

lemma weightedAverage_nonneg:
  assumes "0 \<le> toolDescriptionSafety b" "0 \<le> inputValidation b" "0 \<le> permissionScope b"
    "0 \<le> dataHandling b" "0 \<le> errorHandling b" "0 \<le> policyCompliance b"
  shows "0 \<le> weightedAverage b"
  using assms unfolding weightedAverage_def
  by (intro fadd_nonneg fmul_nonneg rd_nonneg) simp_all

lemma weightedAverage_mono:
  assumes "0 \<le> toolDescriptionSafety b" "0 \<le> inputValidation b" "0 \<le> permissionScope b"
    "0 \<le> dataHandling b" "0 \<le> errorHandling b" "0 \<le> policyCompliance b"
    and "toolDescriptionSafety b \<le> toolDescriptionSafety b'"
    "inputValidation b \<le> inputValidation b'"
    "permissionScope b \<le> permissionScope b'"
    "dataHandling b \<le> dataHandling b'"
    "errorHandling b \<le> errorHandling b'"
    "policyCompliance b \<le> policyCompliance b'"
  shows "weightedAverage b \<le> weightedAverage b'"
  using assms unfolding weightedAverage_def
  by (intro fadd_mono fmul_mono fadd_nonneg fmul_nonneg rd_nonneg) simp_all

lemma weightedAverage_full:
  "weightedAverage \<lparr> toolDescriptionSafety = 100, inputValidation = 100, permissionScope = 100,
     dataHandling = 100, errorHandling = 100, policyCompliance = 100 \<rparr> = 100"
  by (simp add: weightedAverage_def rd_eval)

lemma breakdown_calculateTrustScore:
  "breakdown (calculateTrustScore ctx) =
     \<lparr> toolDescriptionSafety = scoreToolDescriptionSafety ctx,
       inputValidation = scoreInputValidation ctx,
       permissionScope = scorePermissionScope ctx,
       dataHandling = scoreDataHandling ctx,
       errorHandling = scoreErrorHandling ctx,
       policyCompliance = scorePolicyCompliance ctx \<rparr>"
  by (simp add: calculateTrustScore_def Let_def)

lemma overallScore_calculateTrustScore:
  "overallScore (calculateTrustScore ctx) = Math_round (weightedAverage (breakdown (calculateTrustScore ctx)))"
  by (simp add: calculateTrustScore_def Let_def)

lemma overallScore_range:
  "0 \<le> overallScore (calculateTrustScore ctx) \<and> overallScore (calculateTrustScore ctx) \<le> 100"
proof -
  let ?b = "breakdown (calculateTrustScore ctx)"
  let ?full = "\<lparr> toolDescriptionSafety = 100, inputValidation = 100, permissionScope = 100,
     dataHandling = 100, errorHandling = 100, policyCompliance = (100::int) \<rparr>"
  note r = scoreToolDescriptionSafety_range[of ctx] scoreInputValidation_range[of ctx]
    scorePermissionScope_range[of ctx] scoreDataHandling_range[of ctx]
    scoreErrorHandling_range[of ctx] scorePolicyCompliance_range[of ctx]
  have "0 \<le> weightedAverage ?b"
    using r by (intro weightedAverage_nonneg) (simp_all add: breakdown_calculateTrustScore)
  then have "Math_round 0 \<le> Math_round (weightedAverage ?b)" by (rule Math_round_mono)
  moreover have "weightedAverage ?b \<le> weightedAverage ?full"
    using r by (intro weightedAverage_mono) (simp_all add: breakdown_calculateTrustScore)
  then have "Math_round (weightedAverage ?b) \<le> Math_round 100"
    unfolding weightedAverage_full by (rule Math_round_mono)
  moreover have "Math_round 0 = 0" "Math_round 100 = 100"
    using Math_round_of_int[of 0] Math_round_of_int[of 100] by simp_all
  ultimately show ?thesis by (simp add: overallScore_calculateTrustScore)
qed

section \<open>The overall score\<close>

subsection \<open>Rounding errors of the weighted sum\<close>

lemma rne_err: "\<bar>of_int (rne q) - q\<bar> \<le> 1 / 2"
proof -
  have "of_int \<lfloor>q\<rfloor> \<le> q" "q < of_int \<lfloor>q\<rfloor> + 1" by linarith+
  then show ?thesis by (auto simp: rne_def Let_def abs_le_iff)
qed

lemma rd_err:
  assumes "0 < x"
  shows "\<bar>rd x - x\<bar> \<le> 2 powi (ilog2 x - 53)"
proof -
  define u :: rat where "u = 2 powi (ilog2 x - 52)"
  have u: "0 < u" by (simp add: u_def)
  have h: "(2::rat) powi (ilog2 x - 53) = u / 2"
    using power_int_add[of "2::rat" "ilog2 x - 53" 1] by (simp add: u_def)
  have "rd x - x = (of_int (rne (x / u)) - x / u) * u"
    using u by (simp add: rd_pos[OF assms] u_def[symmetric] field_simps)
  then have "\<bar>rd x - x\<bar> = \<bar>of_int (rne (x / u)) - x / u\<bar> * u"
    using u by (simp add: abs_mult)
  also have "\<dots> \<le> (1 / 2) * u" using rne_err[of "x / u"] u by (intro mult_right_mono) simp_all
  finally show ?thesis by (simp add: h)
qed

lemma rd_err_128:
  assumes "0 \<le> x" and "x < 128"
  shows "\<bar>rd x - x\<bar> \<le> 1 / 2 ^ 47"
proof (cases "x = 0")
  case True
  then show ?thesis by simp
next
  case False
  with assms have x: "0 < x" by simp
  have "ilog2 x < 7"
  proof (rule ccontr)
    assume "\<not> ilog2 x < 7"
    then have "(2::rat) powi 7 \<le> 2 powi (ilog2 x)" by (intro power_int_increasing) simp_all
    also have "\<dots> \<le> x" by (rule ilog2_bounds(1)[OF x])
    finally show False using assms(2) by simp
  qed
  then have "(2::rat) powi (ilog2 x - 53) \<le> 2 powi (- 47)"
    by (intro power_int_increasing) simp_all
  also have "(2::rat) powi (- 47) = 1 / 2 ^ 47" by simp
  finally have "(2::rat) powi (ilog2 x - 53) \<le> 1 / 2 ^ 47" .
  with rd_err[OF x] show ?thesis by (rule order_trans)
qed

lemma fmul_err:
  assumes a: "0 \<le> a" "a \<le> 100" and c: "0 \<le> c" "c \<le> 1 / 4"
  shows "0 \<le> fmul a (rd c)" and "\<bar>fmul a (rd c) - a * c\<bar> \<le> 101 * (1 / 2 ^ 47)"
proof -
  define \<delta> :: rat where "\<delta> = 1 / 2 ^ 47"
  have \<delta>: "0 \<le> \<delta>" "\<delta> \<le> 1 / 100" by (simp_all add: \<delta>_def)
  have c': "0 \<le> rd c" using c(1) by (rule rd_nonneg)
  have ce: "\<bar>rd c - c\<bar> \<le> \<delta>" unfolding \<delta>_def using c by (intro rd_err_128) simp_all
  show "0 \<le> fmul a (rd c)" using a(1) c' by (rule fmul_nonneg)
  have "\<bar>a * rd c - a * c\<bar> = a * \<bar>rd c - c\<bar>"
    using a(1) by (simp add: abs_mult right_diff_distrib[symmetric])
  also have "\<dots> \<le> 100 * \<delta>" using a ce \<delta> by (intro mult_mono) simp_all
  finally have pe: "\<bar>a * rd c - a * c\<bar> \<le> 100 * \<delta>" .
  have ac: "a * c \<le> 100 * (1 / 4)" using a c by (intro mult_mono) simp_all
  have lt: "a * rd c < 128" using pe ac \<delta> by linarith
  have nn: "0 \<le> a * rd c" using a(1) c' by simp
  have "\<bar>rd (a * rd c) - a * rd c\<bar> \<le> \<delta>" unfolding \<delta>_def using nn lt by (rule rd_err_128)
  with pe have "\<bar>rd (a * rd c) - a * c\<bar> \<le> 101 * \<delta>" by linarith
  then show "\<bar>fmul a (rd c) - a * c\<bar> \<le> 101 * (1 / 2 ^ 47)"
    unfolding fmul_def \<delta>_def .
qed

lemma fadd_err:
  assumes "0 \<le> x" "0 \<le> y" and "\<bar>x - px\<bar> \<le> ex" "\<bar>y - py\<bar> \<le> ey"
    and "px + py + ex + ey < 128"
  shows "0 \<le> fadd x y" and "\<bar>fadd x y - (px + py)\<bar> \<le> ex + ey + 1 / 2 ^ 47"
proof -
  define \<delta> :: rat where "\<delta> = 1 / 2 ^ 47"
  show "0 \<le> fadd x y" using assms(1,2) by (rule fadd_nonneg)
  have lt: "x + y < 128" using assms(3-5) by linarith
  have "\<bar>rd (x + y) - (x + y)\<bar> \<le> \<delta>"
    unfolding \<delta>_def using assms(1,2) lt by (intro rd_err_128) simp_all
  with assms(3,4) have "\<bar>rd (x + y) - (px + py)\<bar> \<le> ex + ey + \<delta>" by linarith
  then show "\<bar>fadd x y - (px + py)\<bar> \<le> ex + ey + 1 / 2 ^ 47"
    unfolding fadd_def \<delta>_def .
qed


lemma weightedAverage_err:
  assumes "0 \<le> toolDescriptionSafety b" "toolDescriptionSafety b \<le> 100"
    "0 \<le> inputValidation b" "inputValidation b \<le> 100"
    "0 \<le> permissionScope b" "permissionScope b \<le> 100"
    "0 \<le> dataHandling b" "dataHandling b \<le> 100"
    "0 \<le> errorHandling b" "errorHandling b \<le> 100"
    "0 \<le> policyCompliance b" "policyCompliance b \<le> 100"
  shows "\<bar>weightedAverage b -
           of_int (5 * toolDescriptionSafety b + 4 * inputValidation b + 4 * permissionScope b +
                   3 * dataHandling b + 2 * errorHandling b + 2 * policyCompliance b) / 20\<bar>
         \<le> 611 * (1 / 2 ^ 47)"
proof -
  define \<delta> :: rat where "\<delta> = 1 / 2 ^ 47"
  have \<delta>: "0 \<le> \<delta>" "\<delta> \<le> 1 / 1000" by (simp_all add: \<delta>_def)
  define a c d e f g :: rat where "a = of_int (toolDescriptionSafety b)"
    and "c = of_int (inputValidation b)" and "d = of_int (permissionScope b)"
    and "e = of_int (dataHandling b)" and "f = of_int (errorHandling b)"
    and "g = of_int (policyCompliance b)"
  note defs = a_def c_def d_def e_def f_def g_def
  have r: "0 \<le> a" "a \<le> 100" "0 \<le> c" "c \<le> 100" "0 \<le> d" "d \<le> 100"
    "0 \<le> e" "e \<le> 100" "0 \<le> f" "f \<le> 100" "0 \<le> g" "g \<le> 100"
    using assms by (simp_all add: defs)
  define t1 t2 t3 t4 t5 t6 where "t1 = fmul a (rd (1 / 4))" and "t2 = fmul c (rd (1 / 5))"
    and "t3 = fmul d (rd (1 / 5))" and "t4 = fmul e (rd (3 / 20))"
    and "t5 = fmul f (rd (1 / 10))" and "t6 = fmul g (rd (1 / 10))"
  note ts = t1_def t2_def t3_def t4_def t5_def t6_def
  have t1: "0 \<le> t1" "\<bar>t1 - a * (1 / 4)\<bar> \<le> 101 * \<delta>"
    unfolding t1_def \<delta>_def using r by (intro fmul_err; simp)+
  have t2: "0 \<le> t2" "\<bar>t2 - c * (1 / 5)\<bar> \<le> 101 * \<delta>"
    unfolding t2_def \<delta>_def using r by (intro fmul_err; simp)+
  have t3: "0 \<le> t3" "\<bar>t3 - d * (1 / 5)\<bar> \<le> 101 * \<delta>"
    unfolding t3_def \<delta>_def using r by (intro fmul_err; simp)+
  have t4: "0 \<le> t4" "\<bar>t4 - e * (3 / 20)\<bar> \<le> 101 * \<delta>"
    unfolding t4_def \<delta>_def using r by (intro fmul_err; simp)+
  have t5: "0 \<le> t5" "\<bar>t5 - f * (1 / 10)\<bar> \<le> 101 * \<delta>"
    unfolding t5_def \<delta>_def using r by (intro fmul_err; simp)+
  have t6: "0 \<le> t6" "\<bar>t6 - g * (1 / 10)\<bar> \<le> 101 * \<delta>"
    unfolding t6_def \<delta>_def using r by (intro fmul_err; simp)+
  define s1 s2 s3 s4 s5 where "s1 = fadd t1 t2" and "s2 = fadd s1 t3" and "s3 = fadd s2 t4"
    and "s4 = fadd s3 t5" and "s5 = fadd s4 t6"
  have b1: "a * (1 / 4) + c * (1 / 5) + 101 * \<delta> + 101 * \<delta> < 128"
    using r \<delta> by linarith
  note s1 = fadd_err[OF t1(1) t2(1) t1(2) t2(2) b1, folded \<delta>_def s1_def]
  have b2: "(a * (1 / 4) + c * (1 / 5)) + d * (1 / 5) + (101 * \<delta> + 101 * \<delta> + \<delta>) + 101 * \<delta> < 128"
    using r \<delta> by linarith
  note s2 = fadd_err[OF s1(1) t3(1) s1(2) t3(2) b2, folded \<delta>_def s2_def]
  have b3: "(a * (1 / 4) + c * (1 / 5) + d * (1 / 5)) + e * (3 / 20) +
            (101 * \<delta> + 101 * \<delta> + \<delta> + 101 * \<delta> + \<delta>) + 101 * \<delta> < 128"
    using r \<delta> by linarith
  note s3 = fadd_err[OF s2(1) t4(1) s2(2) t4(2) b3, folded \<delta>_def s3_def]
  have b4: "(a * (1 / 4) + c * (1 / 5) + d * (1 / 5) + e * (3 / 20)) + f * (1 / 10) +
            (101 * \<delta> + 101 * \<delta> + \<delta> + 101 * \<delta> + \<delta> + 101 * \<delta> + \<delta>) + 101 * \<delta> < 128"
    using r \<delta> by linarith
  note s4 = fadd_err[OF s3(1) t5(1) s3(2) t5(2) b4, folded \<delta>_def s4_def]
  have b5: "(a * (1 / 4) + c * (1 / 5) + d * (1 / 5) + e * (3 / 20) + f * (1 / 10)) + g * (1 / 10) +
            (101 * \<delta> + 101 * \<delta> + \<delta> + 101 * \<delta> + \<delta> + 101 * \<delta> + \<delta> + 101 * \<delta> + \<delta>) +
            101 * \<delta> < 128"
    using r \<delta> by linarith
  note s5 = fadd_err[OF s4(1) t6(1) s4(2) t6(2) b5, folded \<delta>_def s5_def]
  have w: "weightedAverage b = s5"
    by (simp only: weightedAverage_def s5_def s4_def s3_def s2_def s1_def ts defs)
  have x: "of_int (5 * toolDescriptionSafety b + 4 * inputValidation b + 4 * permissionScope b +
                   3 * dataHandling b + 2 * errorHandling b + 2 * policyCompliance b) / 20 =
           a * (1 / 4) + c * (1 / 5) + d * (1 / 5) + e * (3 / 20) + f * (1 / 10) + g * (1 / 10)"
    by (simp add: defs)
  have "\<bar>s5 - (a * (1 / 4) + c * (1 / 5) + d * (1 / 5) + e * (3 / 20) + f * (1 / 10) + g * (1 / 10))\<bar>
        \<le> 611 * \<delta>"
    using s5(2) by linarith
  then show ?thesis unfolding w x \<delta>_def .
qed

lemma round_near_exact:
  fixes w :: rat and N :: int
  assumes "\<bar>w - of_int N / 20\<bar> \<le> 1 / 1000" and "N mod 20 \<noteq> 10"
  shows "Math_round w = (N + 10) div 20"
proof -
  define k where "k = (N + 10) div 20"
  define m where "m = (N + 10) mod 20"
  have N: "N + 10 = 20 * k + m" by (simp add: k_def m_def)
  have m: "1 \<le> m" "m \<le> 19"
  proof -
    have "m \<noteq> 0" using assms(2) unfolding m_def by presburger
    moreover have "0 \<le> m" "m < 20" by (simp_all add: m_def)
    ultimately show "1 \<le> m" "m \<le> 19" by linarith+
  qed
  have "of_int N / 20 + 1 / 2 = (of_int (N + 10) :: rat) / 20" by simp
  also have "\<dots> = of_int k + of_int m / 20" unfolding N by simp
  finally have e: "of_int N / 20 + 1 / 2 = (of_int k :: rat) + of_int m / 20" .
  have mr: "(1::rat) \<le> of_int m" "(of_int m :: rat) \<le> 19" using m by simp_all
  have lo: "of_int k \<le> w + 1 / 2" using assms(1) e mr by linarith
  have hi: "w + 1 / 2 < of_int k + 1" using assms(1) e mr by linarith
  have "\<lfloor>w + 1 / 2\<rfloor> = k" using lo hi by (intro floor_unique) simp_all
  then show ?thesis by (simp add: Math_round_def k_def)
qed


lemma not_tie_iff:
  fixes N :: int
  shows "(of_int N / 20 :: rat) - of_int \<lfloor>of_int N / 20 :: rat\<rfloor> \<noteq> 1 / 2 \<longleftrightarrow> N mod 20 \<noteq> 10"
proof -
  define q m :: rat where "q = of_int (N div 20)" and "m = of_int (N mod 20)"
  have f: "\<lfloor>of_int N / 20 :: rat\<rfloor> = N div 20"
    using floor_divide_of_int_eq[of N 20, where ?'a = rat] by simp
  have "(of_int N :: rat) = of_int (20 * (N div 20) + N mod 20)" by (simp only: mult_div_mod_eq)
  also have "\<dots> = 20 * q + m"
    by (simp only: of_int_add of_int_mult of_int_numeral q_def m_def)
  finally have e: "(of_int N :: rat) = 20 * q + m" .
  have h: "(of_int N / 20 :: rat) - q = m / 20" unfolding e by (simp add: add_divide_distrib)
  have "(of_int N / 20 :: rat) - q \<noteq> 1 / 2 \<longleftrightarrow> m / 20 \<noteq> 1 / 2" by (simp only: h)
  also have "\<dots> \<longleftrightarrow> m \<noteq> 10" by simp
  also have "m \<noteq> 10 \<longleftrightarrow> N mod 20 \<noteq> 10"
    unfolding m_def using of_int_eq_iff[of "N mod 20" 10, where ?'a = rat] by simp
  finally show ?thesis unfolding f q_def .
qed

text \<open>
  Claim C1. The returned \<open>overallScore\<close> is \<open>Math.round\<close> of the weighted sum
  \<open>0.25 * toolDescriptionSafety + 0.2 * inputValidation + 0.2 * permissionScope +
  0.15 * dataHandling + 0.1 * errorHandling + 0.1 * policyCompliance\<close>, evaluated left to right
  in double arithmetic as the source does (\<open>w\<close> below), and the six addends are the fields of
  the returned breakdown, which hold the six dimension scores of the context. The double sum
  \<open>w\<close> differs from the exact weighted sum \<open>x\<close> by less than \<open>2 powi (- 37)\<close>, so
  \<open>overallScore\<close> is \<open>x\<close> rounded to the nearest integer whenever \<open>x\<close> is not exactly halfway
  between two integers.
\<close>

theorem overallScore_weighted_sum:
  "(let r = calculateTrustScore ctx; b = breakdown r;
        w = fadd (fadd (fadd (fadd (fadd
              (fmul (of_int (toolDescriptionSafety b)) (rd (1 / 4)))
              (fmul (of_int (inputValidation b)) (rd (1 / 5))))
              (fmul (of_int (permissionScope b)) (rd (1 / 5))))
              (fmul (of_int (dataHandling b)) (rd (3 / 20))))
              (fmul (of_int (errorHandling b)) (rd (1 / 10))))
              (fmul (of_int (policyCompliance b)) (rd (1 / 10)));
        x = of_int (toolDescriptionSafety b) * (1 / 4) + of_int (inputValidation b) * (1 / 5) +
            of_int (permissionScope b) * (1 / 5) + of_int (dataHandling b) * (3 / 20) +
            of_int (errorHandling b) * (1 / 10) + of_int (policyCompliance b) * (1 / 10)
    in overallScore r = Math_round w
      \<and> toolDescriptionSafety b = scoreToolDescriptionSafety ctx
      \<and> inputValidation b = scoreInputValidation ctx
      \<and> permissionScope b = scorePermissionScope ctx
      \<and> dataHandling b = scoreDataHandling ctx
      \<and> errorHandling b = scoreErrorHandling ctx
      \<and> policyCompliance b = scorePolicyCompliance ctx
      \<and> \<bar>w - x\<bar> \<le> 611 / 2 ^ 47
      \<and> (x - of_int \<lfloor>x\<rfloor> \<noteq> 1 / 2 \<longrightarrow> overallScore r = \<lfloor>x + 1 / 2\<rfloor>))"
proof -
  let ?r = "calculateTrustScore ctx"
  let ?b = "breakdown ?r"
  define N where "N = 5 * toolDescriptionSafety ?b + 4 * inputValidation ?b + 4 * permissionScope ?b +
                   3 * dataHandling ?b + 2 * errorHandling ?b + 2 * policyCompliance ?b"
  define x :: rat where "x = of_int (toolDescriptionSafety ?b) * (1 / 4) + of_int (inputValidation ?b) * (1 / 5) +
            of_int (permissionScope ?b) * (1 / 5) + of_int (dataHandling ?b) * (3 / 20) +
            of_int (errorHandling ?b) * (1 / 10) + of_int (policyCompliance ?b) * (1 / 10)"
  have xN: "x = of_int N / 20" by (simp add: x_def N_def)
  note rg = scoreToolDescriptionSafety_range[of ctx] scoreInputValidation_range[of ctx]
    scorePermissionScope_range[of ctx] scoreDataHandling_range[of ctx]
    scoreErrorHandling_range[of ctx] scorePolicyCompliance_range[of ctx]
  have err: "\<bar>weightedAverage ?b - of_int N / 20\<bar> \<le> 611 * (1 / 2 ^ 47)"
    unfolding N_def using rg
    by (intro weightedAverage_err) (simp_all add: breakdown_calculateTrustScore)
  have ov: "overallScore ?r = Math_round (weightedAverage ?b)"
    by (rule overallScore_calculateTrustScore)
  have small: "(611::rat) * (1 / 2 ^ 47) \<le> 1 / 1000" by simp
  have exact: "x - of_int \<lfloor>x\<rfloor> \<noteq> 1 / 2 \<longrightarrow> overallScore ?r = \<lfloor>x + 1 / 2\<rfloor>"
  proof
    assume "x - of_int \<lfloor>x\<rfloor> \<noteq> 1 / 2"
    then have nt: "N mod 20 \<noteq> 10" unfolding xN not_tie_iff .
    have e: "\<bar>weightedAverage ?b - of_int N / 20\<bar> \<le> 1 / 1000" using err small by linarith
    have "overallScore ?r = (N + 10) div 20" unfolding ov using e nt by (rule round_near_exact)
    also have "\<dots> = \<lfloor>(of_int (N + 10) :: rat) / of_int 20\<rfloor>"
      by (simp only: floor_divide_of_int_eq)
    also have "(of_int (N + 10) :: rat) / of_int 20 = x + 1 / 2" by (simp add: xN)
    finally show "overallScore ?r = \<lfloor>x + 1 / 2\<rfloor>" .
  qed
  have fields: "toolDescriptionSafety ?b = scoreToolDescriptionSafety ctx"
    "inputValidation ?b = scoreInputValidation ctx"
    "permissionScope ?b = scorePermissionScope ctx"
    "dataHandling ?b = scoreDataHandling ctx"
    "errorHandling ?b = scoreErrorHandling ctx"
    "policyCompliance ?b = scorePolicyCompliance ctx"
    by (simp_all add: breakdown_calculateTrustScore)
  have err': "\<bar>weightedAverage ?b - x\<bar> \<le> 611 / 2 ^ 47" using err unfolding xN by simp
  from ov fields err' exact show ?thesis
    unfolding Let_def x_def weightedAverage_def by blast
qed

lemma breakdown_one_injection:
  "breakdown (calculateTrustScore (ctx_empty\<lparr>vulnerabilities := [vuln_injection]\<rparr>)) =
     \<lparr> toolDescriptionSafety = 60, inputValidation = 100, permissionScope = 100,
       dataHandling = 100, errorHandling = 80, policyCompliance = 100 \<rparr>"
  by (simp add: breakdown_calculateTrustScore ctx_empty_def vuln_injection_def
      scoreToolDescriptionSafety_def scoreInputValidation_def scorePermissionScope_def
      scoreDataHandling_def scoreErrorHandling_def scorePolicyCompliance_def descDeduction_def)

text \<open>
  The formula at a context with one critical Prompt Injection finding and nothing else: the
  breakdown is 60, 100, 100, 100, 80, 100, the exact weighted sum is
  15 + 20 + 20 + 15 + 8 + 10 = 88, which is not halfway, and the score is 88.
\<close>

theorem overallScore_weighted_sum_witness:
  "overallScore (calculateTrustScore (ctx_empty\<lparr>vulnerabilities := [vuln_injection]\<rparr>)) = 88
   \<and> (of_int 60 * (1 / 4) + of_int 100 * (1 / 5) + of_int 100 * (1 / 5) + of_int 100 * (3 / 20) +
       of_int 80 * (1 / 10) + of_int 100 * (1 / 10) :: rat) = 88
   \<and> (88 :: rat) - of_int \<lfloor>88 :: rat\<rfloor> \<noteq> 1 / 2"
  using overallScore_weighted_sum[of "ctx_empty\<lparr>vulnerabilities := [vuln_injection]\<rparr>"]
  unfolding Let_def breakdown_one_injection
  by (simp add: rd_eval)

text \<open>
  The division in \<open>scorePolicyCompliance\<close> is a double division as well: with 23 of 40 tools
  covered the quotient is the double just below 0.575, its product with 100 is just below
  57.5, and the score is 57.
\<close>

lemma policy_compliance_23_of_40: "Math_round (fmul (fdiv 23 40) 100) = 57"
  by (simp add: rd_eval)

lemma breakdown_empty:
  "breakdown (calculateTrustScore ctx_empty) =
     \<lparr> toolDescriptionSafety = 100, inputValidation = 100, permissionScope = 100,
       dataHandling = 100, errorHandling = 100, policyCompliance = 100 \<rparr>"
  by (simp add: breakdown_calculateTrustScore ctx_empty_def
      scoreToolDescriptionSafety_def scoreInputValidation_def scorePermissionScope_def
      scoreDataHandling_def scoreErrorHandling_def scorePolicyCompliance_def)

lemma calculateTrustScore_empty:
  "calculateTrustScore ctx_empty =
     \<lparr> serverName = ''unknown'', overallScore = 100,
       breakdown = \<lparr> toolDescriptionSafety = 100, inputValidation = 100, permissionScope = 100,
         dataHandling = 100, errorHandling = 100, policyCompliance = 100 \<rparr>,
       grade = ''A+'', recommendations = [rec_ok] \<rparr>"
proof -
  have b: "\<lparr> toolDescriptionSafety = scoreToolDescriptionSafety ctx_empty,
       inputValidation = scoreInputValidation ctx_empty,
       permissionScope = scorePermissionScope ctx_empty,
       dataHandling = scoreDataHandling ctx_empty,
       errorHandling = scoreErrorHandling ctx_empty,
       policyCompliance = scorePolicyCompliance ctx_empty \<rparr> =
     \<lparr> toolDescriptionSafety = 100, inputValidation = 100, permissionScope = 100,
       dataHandling = 100, errorHandling = 100, policyCompliance = 100 \<rparr>"
    using breakdown_empty by (simp add: breakdown_calculateTrustScore)
  have t: "tools ctx_empty = []" and v: "vulnerabilities ctx_empty = []"
    by (simp_all add: ctx_empty_def)
  have m: "Math_round 100 = 100" using Math_round_of_int[of 100] by simp
  show ?thesis
    unfolding calculateTrustScore_def Let_def b weightedAverage_full m
    by (simp add: t v computeGrade_def generateRecommendations_def)
qed

text \<open>
  Claim C3. For every scoring context the six dimension scores of the returned breakdown and
  the overall score lie between 0 and 100. The function is total: the read of \<open>tools[0]\<close> and
  the two divisions by the number of tools are guarded as in the source. On the empty context
  (no tools, no findings, no policies) it returns the result written out below.
\<close>

theorem scores_within_bounds:
  "(let r = calculateTrustScore ctx; b = breakdown r in
      0 \<le> toolDescriptionSafety b \<and> toolDescriptionSafety b \<le> 100 \<and>
      0 \<le> inputValidation b \<and> inputValidation b \<le> 100 \<and>
      0 \<le> permissionScope b \<and> permissionScope b \<le> 100 \<and>
      0 \<le> dataHandling b \<and> dataHandling b \<le> 100 \<and>
      0 \<le> errorHandling b \<and> errorHandling b \<le> 100 \<and>
      0 \<le> policyCompliance b \<and> policyCompliance b \<le> 100 \<and>
      0 \<le> overallScore r \<and> overallScore r \<le> 100)
   \<and> calculateTrustScore ctx_empty =
     \<lparr> serverName = ''unknown'', overallScore = 100,
       breakdown = \<lparr> toolDescriptionSafety = 100, inputValidation = 100, permissionScope = 100,
         dataHandling = 100, errorHandling = 100, policyCompliance = 100 \<rparr>,
       grade = ''A+'', recommendations = [rec_ok] \<rparr>"
  using scoreToolDescriptionSafety_range[of ctx] scoreInputValidation_range[of ctx]
    scorePermissionScope_range[of ctx] scoreDataHandling_range[of ctx]
    scoreErrorHandling_range[of ctx] scorePolicyCompliance_range[of ctx]
    overallScore_range[of ctx] calculateTrustScore_empty
  by (simp add: Let_def breakdown_calculateTrustScore)


lemma foldl_sub_snoc:
  "foldl (\<lambda>score v. score - d v) s (xs @ [x]) = foldl (\<lambda>score v. score - d v) s xs - (d x :: int)"
  by simp

text \<open>
  Claim C4. Appending one finding of severity critical and category Prompt Injection to the
  vulnerability list of a context increases neither \<open>toolDescriptionSafety\<close> nor
  \<open>overallScore\<close>.
\<close>

theorem injection_finding_monotone:
  assumes "severity v = Critical" and "category v = ''Prompt Injection''"
  shows "toolDescriptionSafety (breakdown (calculateTrustScore
            (ctx\<lparr>vulnerabilities := vulnerabilities ctx @ [v]\<rparr>)))
           \<le> toolDescriptionSafety (breakdown (calculateTrustScore ctx))
         \<and> overallScore (calculateTrustScore (ctx\<lparr>vulnerabilities := vulnerabilities ctx @ [v]\<rparr>))
           \<le> overallScore (calculateTrustScore ctx)"
proof -
  let ?ctx' = "ctx\<lparr>vulnerabilities := vulnerabilities ctx @ [v]\<rparr>"
  let ?b = "breakdown (calculateTrustScore ctx)"
  let ?b' = "breakdown (calculateTrustScore ?ctx')"
  have v: "vulnerabilities ?ctx' = vulnerabilities ctx @ [v]" and t: "tools ?ctx' = tools ctx"
    and ip: "toolInvocationPolicies ?ctx' = toolInvocationPolicies ctx"
    and dp: "trustedDataPolicies ?ctx' = trustedDataPolicies ctx"
    by simp_all
  have f1: "filter (\<lambda>v. category v = ''Prompt Injection'' \<or>
                category v = ''Prompt Injection (LLM-detected)'') (vulnerabilities ctx @ [v]) =
            filter (\<lambda>v. category v = ''Prompt Injection'' \<or>
                category v = ''Prompt Injection (LLM-detected)'') (vulnerabilities ctx) @ [v]"
    using assms by simp
  have f2: "filter (\<lambda>v. category v = ''Missing Input Validation'') (vulnerabilities ctx @ [v]) =
            filter (\<lambda>v. category v = ''Missing Input Validation'') (vulnerabilities ctx)"
    using assms by simp
  have f3: "filter (\<lambda>v. category v = ''Excessive Permissions'' \<or>
                category v = ''Command Injection'') (vulnerabilities ctx @ [v]) =
            filter (\<lambda>v. category v = ''Excessive Permissions'' \<or>
                category v = ''Command Injection'') (vulnerabilities ctx)"
    using assms by simp
  have f4: "filter (\<lambda>v. category v = ''Data Exfiltration Risk'' \<or>
                category v = ''PII Exposure'') (vulnerabilities ctx @ [v]) =
            filter (\<lambda>v. category v = ''Data Exfiltration Risk'' \<or>
                category v = ''PII Exposure'') (vulnerabilities ctx)"
    using assms by simp
  have tds: "scoreToolDescriptionSafety ?ctx' \<le> scoreToolDescriptionSafety ctx"
    unfolding scoreToolDescriptionSafety_def Let_def v f1
    using assms by (simp add: descDeduction_def)
  have iv: "scoreInputValidation ?ctx' = scoreInputValidation ctx"
    unfolding scoreInputValidation_def v f2 t ..
  have ps: "scorePermissionScope ?ctx' = scorePermissionScope ctx"
    unfolding scorePermissionScope_def v f3 ..
  have dh: "scoreDataHandling ?ctx' = scoreDataHandling ctx"
    unfolding scoreDataHandling_def v f4 ..
  have eh: "scoreErrorHandling ?ctx' \<le> scoreErrorHandling ctx"
    unfolding scoreErrorHandling_def Let_def v by simp
  have pc: "scorePolicyCompliance ?ctx' = scorePolicyCompliance ctx"
    unfolding scorePolicyCompliance_def t ip dp ..
  note r = scoreToolDescriptionSafety_range[of ?ctx'] scoreInputValidation_range[of ?ctx']
    scorePermissionScope_range[of ?ctx'] scoreDataHandling_range[of ?ctx']
    scoreErrorHandling_range[of ?ctx'] scorePolicyCompliance_range[of ?ctx']
  have "weightedAverage ?b' \<le> weightedAverage ?b"
    using r tds iv ps dh eh pc
    by (intro weightedAverage_mono) (simp_all add: breakdown_calculateTrustScore)
  then have "Math_round (weightedAverage ?b') \<le> Math_round (weightedAverage ?b)"
    by (rule Math_round_mono)
  then have "overallScore (calculateTrustScore ?ctx') \<le> overallScore (calculateTrustScore ctx)"
    by (simp only: overallScore_calculateTrustScore)
  moreover have "toolDescriptionSafety ?b' \<le> toolDescriptionSafety ?b"
    using tds by (simp add: breakdown_calculateTrustScore)
  ultimately show ?thesis by simp
qed

text \<open>
  The monotonicity at the empty context and the finding \<open>vuln_injection\<close>.
\<close>

theorem injection_finding_monotone_witness:
  "severity vuln_injection = Critical \<and> category vuln_injection = ''Prompt Injection''
   \<and> toolDescriptionSafety (breakdown (calculateTrustScore
            (ctx_empty\<lparr>vulnerabilities := vulnerabilities ctx_empty @ [vuln_injection]\<rparr>)))
           \<le> toolDescriptionSafety (breakdown (calculateTrustScore ctx_empty))
   \<and> overallScore (calculateTrustScore
            (ctx_empty\<lparr>vulnerabilities := vulnerabilities ctx_empty @ [vuln_injection]\<rparr>))
           \<le> overallScore (calculateTrustScore ctx_empty)"
proof -
  have h1: "severity vuln_injection = Critical" by (simp add: vuln_injection_def)
  have h2: "category vuln_injection = ''Prompt Injection''" by (simp add: vuln_injection_def)
  show ?thesis using h1 h2 injection_finding_monotone[OF h1 h2, of ctx_empty] by simp
qed

section \<open>Grades\<close>

text \<open>
  Claim C5. The grade of the returned result is \<open>computeGrade\<close> of the returned overall score,
  and \<open>computeGrade\<close> follows inclusive lower bounds: 95 and above is A+, 85 to 94 is A, 70 to
  84 is B, 55 to 69 is C, 40 to 54 is D, anything lower is F. The boundary scores of the
  specification are checked one by one: 95, 94, 70, 69, 40, 39.
\<close>

theorem grade_thresholds:
  "grade (calculateTrustScore ctx) = computeGrade (overallScore (calculateTrustScore ctx))
   \<and> (computeGrade s = ''A+'' \<longleftrightarrow> 95 \<le> s)
   \<and> (computeGrade s = ''A'' \<longleftrightarrow> 85 \<le> s \<and> s < 95)
   \<and> (computeGrade s = ''B'' \<longleftrightarrow> 70 \<le> s \<and> s < 85)
   \<and> (computeGrade s = ''C'' \<longleftrightarrow> 55 \<le> s \<and> s < 70)
   \<and> (computeGrade s = ''D'' \<longleftrightarrow> 40 \<le> s \<and> s < 55)
   \<and> (computeGrade s = ''F'' \<longleftrightarrow> s < 40)
   \<and> computeGrade 95 = ''A+'' \<and> computeGrade 94 = ''A'' \<and> computeGrade 70 = ''B''
   \<and> computeGrade 69 = ''C'' \<and> computeGrade 40 = ''D'' \<and> computeGrade 39 = ''F''"
  by (simp add: calculateTrustScore_def Let_def computeGrade_def)

section \<open>Recommendations\<close>

lemma rec_distinct:
  "distinct [rec_description, rec_validation, rec_permission, rec_data, rec_policy, rec_naming, rec_ok]"
  by (simp add: rec_description_def rec_validation_def rec_permission_def rec_data_def
      rec_policy_def rec_naming_def rec_ok_def)

lemma recommendations_calculateTrustScore:
  "recommendations (calculateTrustScore ctx) = generateRecommendations ctx (breakdown (calculateTrustScore ctx))"
  by (simp add: calculateTrustScore_def Let_def)

lemma mem_if_single: "x \<in> set (if p then [a] else []) \<longleftrightarrow> p \<and> x = a"
  by auto

lemma if_single_Nil: "(if p then [a] else []) = [] \<longleftrightarrow> \<not> p"
  by simp

lemma rules_generic:
  fixes a1 a2 a3 a4 a5 a6 ok :: string
  assumes d: "distinct [a1, a2, a3, a4, a5, a6, ok]"
    and rs: "rs = (if p1 then [a1] else []) @ (if p2 then [a2] else []) @ (if p3 then [a3] else []) @
                (if p4 then [a4] else []) @ (if p5 then [a5] else []) @ (if p6 then [a6] else [])"
    and recs: "recs = (if length rs = 0 then rs @ [ok] else rs)"
  shows "(a1 \<in> set recs \<longleftrightarrow> p1) \<and> (a2 \<in> set recs \<longleftrightarrow> p2) \<and> (a3 \<in> set recs \<longleftrightarrow> p3) \<and>
         (a4 \<in> set recs \<longleftrightarrow> p4) \<and> (a5 \<in> set recs \<longleftrightarrow> p5) \<and> (a6 \<in> set recs \<longleftrightarrow> p6) \<and>
         (ok \<in> set recs \<longleftrightarrow> \<not> (p1 \<or> p2 \<or> p3 \<or> p4 \<or> p5 \<or> p6)) \<and>
         (recs = [ok] \<longleftrightarrow> \<not> (p1 \<or> p2 \<or> p3 \<or> p4 \<or> p5 \<or> p6)) \<and>
         set recs \<subseteq> {a1, a2, a3, a4, a5, a6, ok}"
proof -
  have e: "rs = [] \<longleftrightarrow> \<not> (p1 \<or> p2 \<or> p3 \<or> p4 \<or> p5 \<or> p6)"
    unfolding rs by (simp only: append_is_Nil_conv if_single_Nil de_Morgan_disj)
  have m: "\<And>x. x \<in> set rs \<longleftrightarrow> (p1 \<and> x = a1) \<or> (p2 \<and> x = a2) \<or> (p3 \<and> x = a3) \<or>
                (p4 \<and> x = a4) \<or> (p5 \<and> x = a5) \<or> (p6 \<and> x = a6)"
    unfolding rs by (simp only: set_append Un_iff mem_if_single)
  have ne: "a1 \<noteq> a2" "a1 \<noteq> a3" "a1 \<noteq> a4" "a1 \<noteq> a5" "a1 \<noteq> a6" "a1 \<noteq> ok"
    "a2 \<noteq> a3" "a2 \<noteq> a4" "a2 \<noteq> a5" "a2 \<noteq> a6" "a2 \<noteq> ok"
    "a3 \<noteq> a4" "a3 \<noteq> a5" "a3 \<noteq> a6" "a3 \<noteq> ok"
    "a4 \<noteq> a5" "a4 \<noteq> a6" "a4 \<noteq> ok" "a5 \<noteq> a6" "a5 \<noteq> ok" "a6 \<noteq> ok"
    using d by simp_all
  note ne' = ne ne[symmetric]
  have ok: "ok \<notin> set rs" by (simp add: m ne')
  have i1: "a1 \<in> set rs \<longleftrightarrow> p1" by (simp add: m ne')
  have i2: "a2 \<in> set rs \<longleftrightarrow> p2" by (simp add: m ne')
  have i3: "a3 \<in> set rs \<longleftrightarrow> p3" by (simp add: m ne')
  have i4: "a4 \<in> set rs \<longleftrightarrow> p4" by (simp add: m ne')
  have i5: "a5 \<in> set rs \<longleftrightarrow> p5" by (simp add: m ne')
  have i6: "a6 \<in> set rs \<longleftrightarrow> p6" by (simp add: m ne')
  have sub: "set rs \<subseteq> {a1, a2, a3, a4, a5, a6, ok}"
  proof
    fix x assume "x \<in> set rs"
    then have "x = a1 \<or> x = a2 \<or> x = a3 \<or> x = a4 \<or> x = a5 \<or> x = a6" unfolding m by blast
    then show "x \<in> {a1, a2, a3, a4, a5, a6, ok}" by blast
  qed
  show ?thesis
  proof (cases "rs = []")
    case True
    then have r: "recs = [ok]" by (simp add: recs)
    from True e have np: "\<not> (p1 \<or> p2 \<or> p3 \<or> p4 \<or> p5 \<or> p6)" by simp
    show ?thesis unfolding r using np by (simp add: ne')
  next
    case False
    then have r: "recs = rs" by (simp add: recs)
    from False e have np: "p1 \<or> p2 \<or> p3 \<or> p4 \<or> p5 \<or> p6" by simp
    have n: "rs \<noteq> [ok]" using ok by auto
    show ?thesis unfolding r using np n sub by (simp only: i1 i2 i3 i4 i5 i6 ok) simp
  qed
qed

lemma snoc_if: "(if p then xs @ [a] else xs) = xs @ (if p then [a] else [])"
  by simp

lemma generateRecommendations_form:
  "generateRecommendations ctx b =
     (let rs = (if toolDescriptionSafety b < 70 then [rec_description] else []) @
               (if inputValidation b < 70 then [rec_validation] else []) @
               (if permissionScope b < 70 then [rec_permission] else []) @
               (if dataHandling b < 70 then [rec_data] else []) @
               (if policyCompliance b < 50 then [rec_policy] else []) @
               (if list_ex (\<lambda>v. category v = ''Tool Poisoning'') (vulnerabilities ctx)
                then [rec_naming] else [])
      in if length rs = 0 then rs @ [rec_ok] else rs)"
  unfolding generateRecommendations_def Let_def
  by (simp only: snoc_if append_Nil) (simp only: append_assoc)


text \<open>
  Claim C6, as amended. The recommendations follow fixed rules: each of
  \<open>toolDescriptionSafety\<close>, \<open>inputValidation\<close>, \<open>permissionScope\<close> and \<open>dataHandling\<close> contributes
  its remediation string exactly when its score is below 70; \<open>policyCompliance\<close> contributes
  its string exactly when its score is below 50; \<open>errorHandling\<close> has no rule; a finding of
  category Tool Poisoning adds the naming-conflict string; the list is the single
  well-configured message exactly when no rule fires, and no other string ever occurs.
\<close>

theorem recommendation_rules:
  "(let r = calculateTrustScore ctx; b = breakdown r; recs = recommendations r;
        poisoned = list_ex (\<lambda>v. category v = ''Tool Poisoning'') (vulnerabilities ctx);
        fired = (toolDescriptionSafety b < 70 \<or> inputValidation b < 70 \<or> permissionScope b < 70 \<or>
                 dataHandling b < 70 \<or> policyCompliance b < 50 \<or> poisoned)
    in (rec_description \<in> set recs \<longleftrightarrow> toolDescriptionSafety b < 70)
     \<and> (rec_validation \<in> set recs \<longleftrightarrow> inputValidation b < 70)
     \<and> (rec_permission \<in> set recs \<longleftrightarrow> permissionScope b < 70)
     \<and> (rec_data \<in> set recs \<longleftrightarrow> dataHandling b < 70)
     \<and> (rec_policy \<in> set recs \<longleftrightarrow> policyCompliance b < 50)
     \<and> (rec_naming \<in> set recs \<longleftrightarrow> poisoned)
     \<and> (rec_ok \<in> set recs \<longleftrightarrow> \<not> fired)
     \<and> (recs = [rec_ok] \<longleftrightarrow> \<not> fired)
     \<and> set recs \<subseteq> {rec_description, rec_validation, rec_permission, rec_data, rec_policy,
                      rec_naming, rec_ok})"
  unfolding Let_def recommendations_calculateTrustScore
  by (rule rules_generic[OF rec_distinct refl])
     (simp only: generateRecommendations_form Let_def)

lemma breakdown_half_covered:
  "breakdown (calculateTrustScore ctx_half_covered) =
     \<lparr> toolDescriptionSafety = 100, inputValidation = 100, permissionScope = 100,
       dataHandling = 100, errorHandling = 100,
       policyCompliance = Math_round (fmul (fdiv 1 2) 100) \<rparr>"
  by (simp add: breakdown_calculateTrustScore ctx_half_covered_def tool_a_def tool_b_def
      scoreToolDescriptionSafety_def scoreInputValidation_def scorePermissionScope_def
      scoreDataHandling_def scoreErrorHandling_def scorePolicyCompliance_def hasSchema_def
      fdiv_def rd_one)

lemma policy_half: "Math_round (fmul (fdiv 1 2) 100) = 50"
  by (simp add: rd_eval)

text \<open>
  The rules at a server with two tools, one of them covered by a policy, and no findings:
  policy compliance is 50, no rule fires, and the list is the well-configured message alone.
\<close>

theorem recommendation_rules_witness:
  "policyCompliance (breakdown (calculateTrustScore ctx_half_covered)) = 50
   \<and> recommendations (calculateTrustScore ctx_half_covered) = [rec_ok]"
  using recommendation_rules[of ctx_half_covered]
  unfolding Let_def breakdown_half_covered policy_half
  by (simp add: ctx_half_covered_def)

text \<open>
  The claim as stated (every dimension below 70 contributes its string) fails for policy
  compliance: at the same server the score is 50, below 70, and the policy remediation string
  is absent.
\<close>

theorem below_70_without_remediation:
  "policyCompliance (breakdown (calculateTrustScore ctx_half_covered)) < 70
   \<and> rec_policy \<notin> set (recommendations (calculateTrustScore ctx_half_covered))"
proof -
  have r: "recommendations (calculateTrustScore ctx_half_covered) =
        generateRecommendations ctx_half_covered (breakdown (calculateTrustScore ctx_half_covered))"
    by (rule recommendations_calculateTrustScore)
  have v: "vulnerabilities ctx_half_covered = []" by (simp add: ctx_half_covered_def)
  have "recommendations (calculateTrustScore ctx_half_covered) = [rec_ok]"
    unfolding r breakdown_half_covered policy_half generateRecommendations_def Let_def v
    by simp
  moreover have "rec_policy \<noteq> rec_ok" using rec_distinct by simp
  ultimately show ?thesis unfolding breakdown_half_covered policy_half by simp
qed

section \<open>Generated test cases\<close>






















section \<open>Suspicious inputs\<close>

lemma scanPatterns_append:
  "scanPatterns ps s call alerts = alerts @ scanPatterns ps s call []"
  by (induction ps) simp_all

lemma scanCalls_concat:
  "scanCalls calls alerts =
     alerts @ concat (map (\<lambda>call. scanPatterns suspiciousPatterns (argsStr call) call []) calls)"
proof (induction calls arbitrary: alerts)
  case Nil
  then show ?case by simp
next
  case (Cons call calls)
  show ?case
    by (simp add: Cons.IH scanPatterns_append[of suspiciousPatterns "argsStr call" call alerts])
qed

lemma scanPatterns_none:
  "(\<forall>p \<in> set ps. \<not> test p s) \<Longrightarrow> scanPatterns ps s call [] = []"
  by (induction ps) simp_all

lemma scanPatterns_first:
  "(\<forall>q \<in> set pre. \<not> test q s) \<Longrightarrow> test p s \<Longrightarrow>
   scanPatterns (pre @ p # post) s call [] = [suspiciousAlert p call]"
  by (induction pre) simp_all

lemma scanPatterns_some:
  "(\<exists>p \<in> set ps. test p s) \<Longrightarrow> length (scanPatterns ps s call []) = 1"
  by (induction ps) auto

lemma source_inj: "source p = source q \<Longrightarrow> p = q"
  by (cases p; cases q) simp_all

text \<open>
  Claim C9. With the \<open>suspiciousPatterns\<close> threshold enabled, the scan appends to the alerts
  of the server, call by call and in call order, what the inner loop yields for the call: no
  alert when no pattern of the fixed list matches the serialized arguments, and exactly one
  alert when some pattern matches, namely the alert of the first matching pattern in list
  order. That alert has type \<open>suspicious_input\<close>, severity \<open>critical\<close> and the timestamp of the
  call, and its description names that pattern and no other.
\<close>

theorem suspicious_input_first_match:
  "scanSuspiciousInputs True calls alerts =
     alerts @ concat (map (\<lambda>call. scanPatterns suspiciousPatterns (argsStr call) call []) calls)
   \<and> ((\<forall>p \<in> set suspiciousPatterns. \<not> test p (argsStr call)) \<longrightarrow>
        scanPatterns suspiciousPatterns (argsStr call) call [] = [])
   \<and> (suspiciousPatterns = pre @ p # post \<and> (\<forall>q \<in> set pre. \<not> test q (argsStr call)) \<and>
        test p (argsStr call) \<longrightarrow>
        scanPatterns suspiciousPatterns (argsStr call) call [] = [suspiciousAlert p call])
   \<and> ((\<exists>p \<in> set suspiciousPatterns. test p (argsStr call)) \<longrightarrow>
        length (scanPatterns suspiciousPatterns (argsStr call) call []) = 1)
   \<and> type (suspiciousAlert p call) = ''suspicious_input''
   \<and> Alert.severity (suspiciousAlert p call) = ''critical''
   \<and> Alert.timestamp (suspiciousAlert p call) = CallRecord.timestamp call
   \<and> (Alert.description (suspiciousAlert q call) = Alert.description (suspiciousAlert p call)
        \<longleftrightarrow> q = p)
   \<and> suspiciousPatterns = [IgnorePrevious, DropTable, PathTraversal, ScriptTag, ExecCall]"
proof -
  have a: "scanSuspiciousInputs True calls alerts =
     alerts @ concat (map (\<lambda>call. scanPatterns suspiciousPatterns (argsStr call) call []) calls)"
    by (simp add: scanSuspiciousInputs_def scanCalls_concat)
  have b: "(\<forall>p \<in> set suspiciousPatterns. \<not> test p (argsStr call)) \<longrightarrow>
        scanPatterns suspiciousPatterns (argsStr call) call [] = []"
    using scanPatterns_none by blast
  have c: "suspiciousPatterns = pre @ p # post \<and> (\<forall>q \<in> set pre. \<not> test q (argsStr call)) \<and>
        test p (argsStr call) \<longrightarrow>
        scanPatterns suspiciousPatterns (argsStr call) call [] = [suspiciousAlert p call]"
  proof (intro impI, elim conjE)
    assume e: "suspiciousPatterns = pre @ p # post"
      and n: "\<forall>q \<in> set pre. \<not> test q (argsStr call)" and m: "test p (argsStr call)"
    show "scanPatterns suspiciousPatterns (argsStr call) call [] = [suspiciousAlert p call]"
      unfolding e using n m by (rule scanPatterns_first)
  qed
  have d: "Alert.description (suspiciousAlert q call) = Alert.description (suspiciousAlert p call)
        \<longleftrightarrow> q = p"
    using source_inj[of q p] by (auto simp: suspiciousAlert_def)
  have e: "(\<exists>p \<in> set suspiciousPatterns. test p (argsStr call)) \<longrightarrow>
        length (scanPatterns suspiciousPatterns (argsStr call) call []) = 1"
    using scanPatterns_some by blast
  have f: "type (suspiciousAlert p call) = ''suspicious_input''"
    "Alert.severity (suspiciousAlert p call) = ''critical''"
    "Alert.timestamp (suspiciousAlert p call) = CallRecord.timestamp call"
    by (simp_all add: suspiciousAlert_def)
  have g: "suspiciousPatterns = [IgnorePrevious, DropTable, PathTraversal, ScriptTag, ExecCall]"
    by (rule suspiciousPatterns_def)
  from a b c d e f g show ?thesis by blast
qed

lemma argsStr_drop_table:
  "argsStr call_drop_table =
     ''{'' @ [CHR 0x22] @ ''query'' @ [CHR 0x22] @ '':'' @ [CHR 0x22, CHR 0x27] @
     ''; DROP TABLE users; --'' @ [CHR 0x22] @ ''}''"
  by (simp add: argsStr_def call_drop_table_def truthy_def sqlPayload_def quoteJSONString_def
      escapeChar_def)

lemma argsStr_clean:
  "argsStr call_clean =
     ''{'' @ [CHR 0x22] @ ''path'' @ [CHR 0x22] @ '':'' @ [CHR 0x22] @ ''/tmp/report.txt'' @
     [CHR 0x22] @ '','' @ [CHR 0x22] @ ''lines'' @ [CHR 0x22] @ '':20}''"
  by (simp add: argsStr_def call_clean_def truthy_def quoteJSONString_def
      escapeChar_def numberToString_def hexDigit_def)

lemma argsStr_two_patterns:
  "argsStr call_two_patterns =
     ''{'' @ [CHR 0x22] @ ''q'' @ [CHR 0x22] @ '':'' @ [CHR 0x22] @
     ''drop table t; IGNORE  previous rules'' @ [CHR 0x22] @ ''}''"
  by (simp add: argsStr_def call_two_patterns_def truthy_def quoteJSONString_def
      escapeChar_def)

lemmas test_eval = wordsApart_def sameLetter_def isSpace_def

lemma tests_drop_table:
  "\<not> test IgnorePrevious (argsStr call_drop_table)" "test DropTable (argsStr call_drop_table)"
  unfolding argsStr_drop_table by (simp_all add: test_eval)

lemma tests_clean:
  "\<forall>p \<in> set suspiciousPatterns. \<not> test p (argsStr call_clean)"
  unfolding argsStr_clean suspiciousPatterns_def by (simp add: test_eval)

lemma tests_two_patterns:
  "test IgnorePrevious (argsStr call_two_patterns)" "test DropTable (argsStr call_two_patterns)"
  unfolding argsStr_two_patterns by (simp_all add: test_eval)

text \<open>
  Three calls: the first carries the SQL payload \<open>'; DROP TABLE users; --\<close> and yields one
  alert, for \<open>drop\\s+table\<close>; the second matches nothing; the third matches both the first
  and the second pattern and yields one alert, for the first.
\<close>

theorem suspicious_input_first_match_witness:
  "scanSuspiciousInputs True [call_drop_table, call_clean, call_two_patterns] [] =
     [suspiciousAlert DropTable call_drop_table, suspiciousAlert IgnorePrevious call_two_patterns]
   \<and> test DropTable (argsStr call_two_patterns)
   \<and> Alert.description (suspiciousAlert DropTable call_drop_table) =
       ''Suspicious pattern '' @ [CHR 0x22] @ ''drop'' @ [CHR 0x5C] @ ''s+table'' @ [CHR 0x22] @
       '' detected in call to search''"
proof -
  note t = suspicious_input_first_match
  have 1: "scanPatterns suspiciousPatterns (argsStr call_drop_table) call_drop_table [] =
             [suspiciousAlert DropTable call_drop_table]"
    using t[where call = call_drop_table and pre = "[IgnorePrevious]" and p = DropTable
        and post = "[PathTraversal, ScriptTag, ExecCall]"] tests_drop_table
    by (simp add: suspiciousPatterns_def)
  have 2: "scanPatterns suspiciousPatterns (argsStr call_clean) call_clean [] = []"
    using t[where call = call_clean] tests_clean by simp
  have 3: "scanPatterns suspiciousPatterns (argsStr call_two_patterns) call_two_patterns [] =
             [suspiciousAlert IgnorePrevious call_two_patterns]"
    using t[where call = call_two_patterns and pre = "[]" and p = IgnorePrevious
        and post = "[DropTable, PathTraversal, ScriptTag, ExecCall]"] tests_two_patterns
    by (simp add: suspiciousPatterns_def)
  have "scanSuspiciousInputs True [call_drop_table, call_clean, call_two_patterns] [] =
     [suspiciousAlert DropTable call_drop_table, suspiciousAlert IgnorePrevious call_two_patterns]"
    using t[where calls = "[call_drop_table, call_clean, call_two_patterns]" and alerts = "[]"]
    by (simp add: 1 2 3)
  then show ?thesis using tests_two_patterns(2)
    by (simp add: suspiciousAlert_def call_drop_table_def)
qed

section \<open>Failures of the classifier\<close>






section \<open>The lethal trifecta\<close>

lemma covers_iff: "covers cls ts c \<longleftrightarrow> (\<exists>t \<in> set ts. cls t c)"
  by (simp add: covers_def list_ex_iff)

text \<open>
  Claim C2. The detector emits a critical Lethal Trifecta finding if and only if each of the
  three capability classes is covered by some tool of the set, whichever tools cover them and
  however many classes one tool covers. If a class is covered by no tool there is no finding;
  if the tool set covers the other two classes, appending a tool of the missing class makes
  the finding appear.
\<close>

theorem trifecta_iff_all_three_classes:
  "((\<exists>v \<in> set (detectLethalTrifecta cls ts).
        category v = ''Lethal Trifecta'' \<and> severity v = Critical)
      \<longleftrightarrow> (\<exists>t \<in> set ts. cls t PrivateData) \<and> (\<exists>t \<in> set ts. cls t UntrustedContent) \<and>
          (\<exists>t \<in> set ts. cls t ExternalComm))
   \<and> (\<not> (\<exists>t \<in> set ts. cls t c) \<longrightarrow> detectLethalTrifecta cls ts = [])
   \<and> ((\<forall>c'. c' \<noteq> c \<longrightarrow> (\<exists>t \<in> set ts. cls t c')) \<and> cls t' c \<longrightarrow>
        (\<exists>v \<in> set (detectLethalTrifecta cls (ts @ [t'])).
           category v = ''Lethal Trifecta'' \<and> severity v = Critical))
   \<and> length (detectLethalTrifecta cls ts) \<le> 1"
proof -
  have iff: "(\<exists>v \<in> set (detectLethalTrifecta cls ts).
        category v = ''Lethal Trifecta'' \<and> severity v = Critical)
      \<longleftrightarrow> (\<exists>t \<in> set ts. cls t PrivateData) \<and> (\<exists>t \<in> set ts. cls t UntrustedContent) \<and>
          (\<exists>t \<in> set ts. cls t ExternalComm)" for ts
    by (simp add: detectLethalTrifecta_def covers_iff)
  have none: "\<not> (\<exists>t \<in> set ts. cls t c) \<longrightarrow> detectLethalTrifecta cls ts = []"
    by (cases c) (auto simp: detectLethalTrifecta_def covers_iff)
  have add: "(\<forall>c'. c' \<noteq> c \<longrightarrow> (\<exists>t \<in> set ts. cls t c')) \<and> cls t' c \<longrightarrow>
        (\<exists>v \<in> set (detectLethalTrifecta cls (ts @ [t'])).
           category v = ''Lethal Trifecta'' \<and> severity v = Critical)"
  proof
    assume a: "(\<forall>c'. c' \<noteq> c \<longrightarrow> (\<exists>t \<in> set ts. cls t c')) \<and> cls t' c"
    have "\<exists>t \<in> set (ts @ [t']). cls t c'" for c'
    proof (cases "c' = c")
      case True
      with a show ?thesis by auto
    next
      case False
      with a obtain t where "t \<in> set ts" "cls t c'" by blast
      then show ?thesis by auto
    qed
    then show "\<exists>v \<in> set (detectLethalTrifecta cls (ts @ [t'])).
           category v = ''Lethal Trifecta'' \<and> severity v = Critical"
      unfolding iff by blast
  qed
  have le: "length (detectLethalTrifecta cls ts) \<le> 1" by (simp add: detectLethalTrifecta_def)
  from iff[of ts] none add le show ?thesis by blast
qed

text \<open>
  A server with \<open>read_file\<close> (private data) and \<open>send_email\<close> (external communication) has
  no finding; with \<open>fetch_webpage\<close> (untrusted content) added it has one.
\<close>

theorem trifecta_iff_all_three_classes_witness:
  "detectLethalTrifecta cls_by_name [tool_a, tool_b] = []
   \<and> cls_by_name tool_a PrivateData \<and> cls_by_name tool_b ExternalComm
   \<and> cls_by_name tool_fetch UntrustedContent
   \<and> (\<exists>v \<in> set (detectLethalTrifecta cls_by_name ([tool_a, tool_b] @ [tool_fetch])).
         category v = ''Lethal Trifecta'' \<and> severity v = Critical)"
proof -
  note t = trifecta_iff_all_three_classes[where cls = cls_by_name and ts = "[tool_a, tool_b]"
      and c = UntrustedContent and t' = tool_fetch]
  have n: "\<not> (\<exists>t \<in> set [tool_a, tool_b]. cls_by_name t UntrustedContent)"
    by (simp add: cls_by_name_def tool_a_def tool_b_def)
  have a: "cls_by_name tool_a PrivateData" "cls_by_name tool_b ExternalComm"
    "cls_by_name tool_fetch UntrustedContent"
    by (simp_all add: cls_by_name_def tool_a_def tool_b_def tool_fetch_def)
  have o: "\<forall>c'. c' \<noteq> UntrustedContent \<longrightarrow> (\<exists>t \<in> set [tool_a, tool_b]. cls_by_name t c')"
  proof (intro allI impI)
    fix c' :: Capability assume "c' \<noteq> UntrustedContent"
    then show "\<exists>t \<in> set [tool_a, tool_b]. cls_by_name t c'" using a by (cases c') auto
  qed
  from t n a o show ?thesis by blast
qed

end
